theory Spec2Isabelle
  imports Complex_Main
begin

section \<open>The prediction service of \<^verbatim>\<open>ai/app/services/predict.py\<close>\<close>

text \<open>
  The service turns a flat map of named raw feature values into the vector a fitted
  estimator expects, calls the estimator and scales its answer back.

  Python floats are modelled as reals: the arithmetic is exact, and rounding, the
  infinities and NaN are outside the model. Every \<^verbatim>\<open>raise\<close> of the source is a
  value of the type \<open>exn\<close>; a function that can raise returns \<open>exn + 'a\<close>, with
  \<open>Inl\<close> for the exception.
\<close>

subsection \<open>Values, exceptions, metadata\<close>

text \<open>
  A raw feature value as \<^verbatim>\<open>float(...)\<close> sees it: \<open>Num r\<close> is a number, or a
  string that \<^verbatim>\<open>float\<close> parses, of value \<open>r\<close>; \<open>BadStr\<close> is a string that
  \<^verbatim>\<open>float\<close> rejects with ValueError; \<open>BadType\<close> is a value that \<^verbatim>\<open>float\<close>
  rejects with TypeError (None, a list, an object).
\<close>

datatype fval = Num real | BadStr | BadType

text \<open>
  The messages of the ValueErrors of the source, with the data they are formatted from.
  \<open>CouldNotConvert\<close> is the message of \<^verbatim>\<open>float\<close> itself and \<open>MissingKey\<close> the text
  of a KeyError raised by a dictionary lookup.
\<close>

datatype message =
    FeatureNamesRequired
  | WindowSizeNotPositive
  | NoiseBoundsInvalid
  | NoHistFeatures
  | MissingHistory "string list"
  | MissingKey string
  | HistNotNumeric
  | HistNotPositive
  | UnknownMode string
  | MissingNoise string
  | CouldNotConvert
  | FeatureNotNumeric string

text \<open>
  The exception classes. \<open>NanBase\<close> is not an exception of Python: it stands for the
  NaN that \<^verbatim>\<open>np.mean\<close> returns on an empty list, which the reals cannot hold.
  \<open>InferenceError\<close> stands for whatever the estimator raises.
\<close>

datatype exn = ValueError message | TypeError | IndexError | NanBase | InferenceError

record noise_cfg =
  min_abs_db :: "real option"
  max_abs_db :: "real option"

record scaling_cfg =
  sc_window_scale_mode :: "string option"
  sc_noise_scaling :: "noise_cfg option"

text \<open>The metadata dictionary: a key that is absent is \<open>None\<close>.\<close>

record metadata =
  feature_names :: "string list option"
  feature_names_in :: "string list option"
  window_size :: "int option"
  scaling :: "scaling_cfg option"
  window_scale_mode :: "string option"
  noise_scaling :: "noise_cfg option"

record prediction =
  y_pred :: real
  y_pred_scaled :: real
  base :: real
  x_vector :: "real list"
  res_feature_names :: "string list"

type_synonym features = "string \<rightharpoonup> fval"

text \<open>
  The fitted estimator is not part of the sources: it is a parameter, a function from
  the input vector to the scalar \<^verbatim>\<open>model.predict([x])[0]\<close>, or \<open>None\<close> when the
  call raises.
\<close>

type_synonym estimator = "real list \<Rightarrow> real option"

subsection \<open>Strings\<close>

definition startswith :: "string \<Rightarrow> string \<Rightarrow> bool" where
  "startswith s p = (take (length p) s = p)"

text \<open>\<^verbatim>\<open>s.split("_")[-1]\<close>: what follows the last underscore, or all of \<open>s\<close>.\<close>

definition last_segment :: "string \<Rightarrow> string" where
  "last_segment s = rev (takeWhile (\<lambda>c. c \<noteq> CHR ''_'') (rev s))"

definition is_space :: "char \<Rightarrow> bool" where
  "is_space c = (c \<in> set [CHR 0x09, CHR 0x0A, CHR 0x0B, CHR 0x0C, CHR 0x0D, CHR 0x20])"

definition is_digit :: "char \<Rightarrow> bool" where
  "is_digit c = (c \<in> set ''0123456789'')"

definition digit_val :: "char \<Rightarrow> int" where
  "digit_val c = int (of_char c) - 48"

definition strip :: "string \<Rightarrow> string" where
  "strip s = rev (dropWhile is_space (rev (dropWhile is_space s)))"

definition parse_digits :: "string \<Rightarrow> int option" where
  "parse_digits ds =
     (if ds = [] then None
      else if list_all is_digit ds then Some (foldl (\<lambda>a c. 10 * a + digit_val c) 0 ds)
      else None)"

text \<open>
  \<^verbatim>\<open>int(s)\<close> on an ASCII string without underscores: surrounding white space is
  dropped, one sign is allowed, at least one decimal digit must follow and nothing
  else. \<open>None\<close> is the ValueError. Digits and spaces beyond ASCII are outside the model.
\<close>

definition py_int :: "string \<Rightarrow> int option" where
  "py_int s =
     (case strip s of
        [] \<Rightarrow> None
      | c # cs \<Rightarrow>
          if c = CHR ''+'' then parse_digits cs
          else if c = CHR ''-'' then map_option uminus (parse_digits cs)
          else parse_digits (c # cs))"

definition py_float :: "fval \<Rightarrow> exn + real" where
  "py_float v =
     (case v of
        Num r \<Rightarrow> Inr r
      | BadStr \<Rightarrow> Inl (ValueError CouldNotConvert)
      | BadType \<Rightarrow> Inl TypeError)"

subsection \<open>The helpers\<close>

definition hist_idx_of :: "string list \<Rightarrow> nat list" where
  "hist_idx_of names = filter (\<lambda>i. startswith (names ! i) ''DL_hist_'') [0..<length names]"

definition noise_idx_of :: "string list \<Rightarrow> nat list" where
  "noise_idx_of names = filter (\<lambda>i. startswith (names ! i) ''noise_'') [0..<length names]"

definition other_idx_of :: "string list \<Rightarrow> nat list" where
  "other_idx_of names =
     filter (\<lambda>i. i \<notin> set (hist_idx_of names @ noise_idx_of names)) [0..<length names]"

definition split_indices :: "string list \<Rightarrow> nat list \<times> nat list \<times> nat list" where
  "split_indices names = (hist_idx_of names, noise_idx_of names, other_idx_of names)"

text \<open>The keys of the sort, all computed before sorting: one failure fails them all.\<close>

fun suffix_keys :: "string list \<Rightarrow> int list option" where
  "suffix_keys [] = Some []"
| "suffix_keys (n # ns) =
     (case py_int (last_segment n) of
        None \<Rightarrow> None
      | Some k \<Rightarrow> (case suffix_keys ns of None \<Rightarrow> None | Some ks \<Rightarrow> Some (k # ks)))"

text \<open>
  \<^verbatim>\<open>sorted\<close> is stable, as \<open>sort_key\<close> is. The indices of \<open>hist_idx\<close> are positions of
  the list of names, so the reads \<open>names ! i\<close> are in range.
\<close>

definition order_hist_positions :: "string list \<Rightarrow> nat list \<Rightarrow> nat list" where
  "order_hist_positions names hist_idx =
     (if hist_idx = [] then []
      else
        let hist_names = map (\<lambda>i. names ! i) hist_idx
        in case suffix_keys hist_names of
             Some keys \<Rightarrow>
               (let order = sort_key (\<lambda>k. keys ! k) [0..<length hist_idx]
                in map (\<lambda>k. hist_idx ! k) order)
           | None \<Rightarrow> hist_idx)"

definition mean :: "real list \<Rightarrow> real" where
  "mean xs = sum_list xs / real (length xs)"

definition floor_base :: real where
  "floor_base = 1 / 100000000"

text \<open>
  On an empty list \<^verbatim>\<open>np.mean\<close> gives NaN and \<^verbatim>\<open>hist_raw[-1]\<close> raises IndexError.
\<close>

definition compute_window_base :: "real list \<Rightarrow> string \<Rightarrow> exn + real" where
  "compute_window_base hist_raw mode =
     (if mode = ''window_mean'' then
        (if hist_raw = [] then Inl NanBase else Inr (max (mean hist_raw) floor_base))
      else if mode = ''window_anchor'' then
        (if hist_raw = [] then Inl IndexError else Inr (max (last hist_raw) floor_base))
      else if mode = ''none'' then Inr (max 1 floor_base)
      else Inl (ValueError (UnknownMode mode)))"

definition scale_noise_abs_db :: "real \<Rightarrow> real \<Rightarrow> real \<Rightarrow> real" where
  "scale_noise_abs_db val_db vmin vmax =
     (let v = \<bar>val_db\<bar> in min (max ((v - vmin) / (vmax - vmin)) 0) 1)"

subsection \<open>Reading the metadata\<close>

text \<open>\<^verbatim>\<open>metadata.get("feature_names") or metadata.get("feature_names_in") or []\<close>\<close>

definition get_feature_names :: "metadata \<Rightarrow> string list" where
  "get_feature_names md =
     (case feature_names md of
        Some (n # ns) \<Rightarrow> n # ns
      | _ \<Rightarrow> (case feature_names_in md of Some ns \<Rightarrow> ns | None \<Rightarrow> []))"

definition get_window_size :: "metadata \<Rightarrow> int" where
  "get_window_size md = (case window_size md of Some w \<Rightarrow> w | None \<Rightarrow> 0)"

definition get_scaling :: "metadata \<Rightarrow> scaling_cfg" where
  "get_scaling md =
     (case scaling md of
        Some s \<Rightarrow> s
      | None \<Rightarrow> \<lparr>sc_window_scale_mode = None, sc_noise_scaling = None\<rparr>)"

definition get_window_scale_mode :: "metadata \<Rightarrow> string" where
  "get_window_scale_mode md =
     (case sc_window_scale_mode (get_scaling md) of
        Some m \<Rightarrow> m
      | None \<Rightarrow> (case window_scale_mode md of Some m \<Rightarrow> m | None \<Rightarrow> ''window_mean''))"

definition get_noise_cfg :: "metadata \<Rightarrow> noise_cfg" where
  "get_noise_cfg md =
     (case sc_noise_scaling (get_scaling md) of
        Some c \<Rightarrow> c
      | None \<Rightarrow>
          (case noise_scaling md of
             Some c \<Rightarrow> c
           | None \<Rightarrow> \<lparr>min_abs_db = Some 50, max_abs_db = Some 150\<rparr>))"

definition get_vmin :: "metadata \<Rightarrow> real" where
  "get_vmin md = (case min_abs_db (get_noise_cfg md) of Some v \<Rightarrow> v | None \<Rightarrow> 50)"

definition get_vmax :: "metadata \<Rightarrow> real" where
  "get_vmax md = (case max_abs_db (get_noise_cfg md) of Some v \<Rightarrow> v | None \<Rightarrow> 150)"

subsection \<open>The service\<close>

text \<open>
  The history positions the service reads: all of them in order when their number is
  the window size, the first that many of them otherwise.
\<close>

definition ordered_hist_positions :: "string list \<Rightarrow> nat list \<Rightarrow> int \<Rightarrow> nat list" where
  "ordered_hist_positions names hist_idx wsize =
     (if int (length hist_idx) = wsize then order_hist_positions names hist_idx
      else take (nat wsize) (order_hist_positions names hist_idx))"

definition missing_hist :: "features \<Rightarrow> string list \<Rightarrow> string list" where
  "missing_hist feats hist_names_ordered = filter (\<lambda>n. feats n = None) hist_names_ordered"

text \<open>\<^verbatim>\<open>[float(features[n]) for n in hist_names_ordered]\<close>, stopping at the first raise.\<close>

fun hist_floats :: "features \<Rightarrow> string list \<Rightarrow> exn + real list" where
  "hist_floats feats [] = Inr []"
| "hist_floats feats (n # ns) =
     (case feats n of
        None \<Rightarrow> Inl (ValueError (MissingKey n))
      | Some v \<Rightarrow>
          (case py_float v of
             Inl e \<Rightarrow> Inl (ValueError HistNotNumeric)
           | Inr r \<Rightarrow>
               (case hist_floats feats ns of Inl e \<Rightarrow> Inl e | Inr rs \<Rightarrow> Inr (r # rs))))"

text \<open>The \<^verbatim>\<open>try\<close> block that collects the raw history.\<close>

definition collect_hist :: "features \<Rightarrow> string list \<Rightarrow> exn + real list" where
  "collect_hist feats hist_names_ordered =
     (let missing = missing_hist feats hist_names_ordered
      in if missing = [] then hist_floats feats hist_names_ordered
         else Inl (ValueError (MissingHistory missing)))"

text \<open>\<^verbatim>\<open>for pos, val in zip(ordered_hist_positions, hist_scaled): x[pos] = float(val)\<close>\<close>

definition fill_hist :: "nat list \<Rightarrow> real list \<Rightarrow> real list \<Rightarrow> real list" where
  "fill_hist positions hist_scaled x = fold (\<lambda>(pos, val) x. x[pos := val]) (zip positions hist_scaled) x"

fun fill_noise :: "string list \<Rightarrow> features \<Rightarrow> real \<Rightarrow> real \<Rightarrow> nat list \<Rightarrow> real list \<Rightarrow> exn + real list" where
  "fill_noise names feats vmin vmax [] x = Inr x"
| "fill_noise names feats vmin vmax (pos # ps) x =
     (let name = names ! pos
      in case feats name of
           None \<Rightarrow> Inl (ValueError (MissingNoise name))
         | Some v \<Rightarrow>
             (case py_float v of
                Inl e \<Rightarrow> Inl e
              | Inr r \<Rightarrow> fill_noise names feats vmin vmax ps (x[pos := scale_noise_abs_db r vmin vmax])))"

fun fill_other :: "string list \<Rightarrow> features \<Rightarrow> nat list \<Rightarrow> real list \<Rightarrow> exn + real list" where
  "fill_other names feats [] x = Inr x"
| "fill_other names feats (pos # ps) x =
     (let name = names ! pos
      in case feats name of
           None \<Rightarrow> fill_other names feats ps x
         | Some v \<Rightarrow>
             (case py_float v of
                Inl e \<Rightarrow> Inl (ValueError (FeatureNotNumeric name))
              | Inr r \<Rightarrow> fill_other names feats ps (x[pos := r])))"

text \<open>
  The body of \<^verbatim>\<open>predict_with_model\<close> from the computation of the base on: it is
  entered with the raw history already collected and checked.
\<close>

definition assemble ::
  "estimator \<Rightarrow> string list \<Rightarrow> features \<Rightarrow> string \<Rightarrow> real \<Rightarrow> real \<Rightarrow> nat list \<Rightarrow> nat list
     \<Rightarrow> nat list \<Rightarrow> real list \<Rightarrow> exn + prediction" where
  "assemble model names feats mode vmin vmax positions noise_idx other_idx hist_raw =
     (case compute_window_base hist_raw mode of
        Inl e \<Rightarrow> Inl e
      | Inr b \<Rightarrow>
          (let hist_scaled = (if mode = ''none'' then hist_raw else map (\<lambda>v. v / b) hist_raw);
               x0 = replicate (length names) 0;
               x1 = fill_hist positions hist_scaled x0
           in case fill_noise names feats vmin vmax noise_idx x1 of
                Inl e \<Rightarrow> Inl e
              | Inr x2 \<Rightarrow>
                  (case fill_other names feats other_idx x2 of
                     Inl e \<Rightarrow> Inl e
                   | Inr x \<Rightarrow>
                       (case model x of
                          None \<Rightarrow> Inl InferenceError
                        | Some y \<Rightarrow>
                            Inr \<lparr>y_pred = y * b, y_pred_scaled = y, base = b,
                                 x_vector = x, res_feature_names = names\<rparr>))))"

definition predict_with_model :: "estimator \<Rightarrow> metadata \<Rightarrow> features \<Rightarrow> exn + prediction" where
  "predict_with_model model md feats =
     (let names = get_feature_names md
      in if names = [] then Inl (ValueError FeatureNamesRequired)
         else
           let wsize = get_window_size md
           in if wsize \<le> 0 then Inl (ValueError WindowSizeNotPositive)
              else
                let mode = get_window_scale_mode md;
                    vmin = get_vmin md;
                    vmax = get_vmax md
                in if vmax \<le> vmin then Inl (ValueError NoiseBoundsInvalid)
                   else
                     let (hist_idx, noise_idx, other_idx) = split_indices names
                     in if length hist_idx = 0 then Inl (ValueError NoHistFeatures)
                        else
                          let positions = ordered_hist_positions names hist_idx wsize;
                              hist_names_ordered = map (\<lambda>i. names ! i) positions
                          in case collect_hist feats hist_names_ordered of
                               Inl e \<Rightarrow> Inl e
                             | Inr hist_raw \<Rightarrow>
                                 if list_ex (\<lambda>v. v \<le> 0) hist_raw
                                 then Inl (ValueError HistNotPositive)
                                 else assemble model names feats mode vmin vmax positions
                                        noise_idx other_idx hist_raw)"

subsection \<open>Vocabulary of the properties\<close>

text \<open>
  The two kinds of failure the service reports, by message: a broken model artifact, or
  a bad request.
\<close>

fun configuration_message :: "message \<Rightarrow> bool" where
  "configuration_message FeatureNamesRequired = True"
| "configuration_message WindowSizeNotPositive = True"
| "configuration_message NoiseBoundsInvalid = True"
| "configuration_message NoHistFeatures = True"
| "configuration_message (UnknownMode m) = True"
| "configuration_message _ = False"

fun validation_message :: "message \<Rightarrow> bool" where
  "validation_message (MissingHistory ns) = True"
| "validation_message (MissingKey n) = True"
| "validation_message HistNotNumeric = True"
| "validation_message HistNotPositive = True"
| "validation_message (MissingNoise n) = True"
| "validation_message CouldNotConvert = True"
| "validation_message (FeatureNotNumeric n) = True"
| "validation_message _ = False"

text \<open>A failure caused by the request: a validation message, or the TypeError of \<^verbatim>\<open>float\<close>.\<close>

fun is_validation_error :: "exn \<Rightarrow> bool" where
  "is_validation_error (ValueError m) = validation_message m"
| "is_validation_error TypeError = True"
| "is_validation_error _ = False"

text \<open>\<^verbatim>\<open>isinstance(e, ValueError)\<close>\<close>

fun is_value_error :: "exn \<Rightarrow> bool" where
  "is_value_error (ValueError m) = True"
| "is_value_error _ = False"

definition known_mode :: "string \<Rightarrow> bool" where
  "known_mode mode = (mode \<in> set [''window_mean'', ''window_anchor'', ''none''])"

text \<open>The metadata the service accepts whatever the request is.\<close>

definition valid_metadata :: "metadata \<Rightarrow> bool" where
  "valid_metadata md =
     (get_feature_names md \<noteq> [] \<and> 0 < get_window_size md \<and> get_vmin md < get_vmax md
      \<and> hist_idx_of (get_feature_names md) \<noteq> [] \<and> known_mode (get_window_scale_mode md))"

text \<open>The history positions and names a request must provide, in the order of the window.\<close>

definition required_hist_positions :: "metadata \<Rightarrow> nat list" where
  "required_hist_positions md =
     ordered_hist_positions (get_feature_names md) (hist_idx_of (get_feature_names md))
       (get_window_size md)"

definition required_hist_names :: "metadata \<Rightarrow> string list" where
  "required_hist_names md = map (\<lambda>i. get_feature_names md ! i) (required_hist_positions md)"

definition required_noise_names :: "metadata \<Rightarrow> string list" where
  "required_noise_names md =
     map (\<lambda>i. get_feature_names md ! i) (noise_idx_of (get_feature_names md))"

definition other_names :: "metadata \<Rightarrow> string list" where
  "other_names md = map (\<lambda>i. get_feature_names md ! i) (other_idx_of (get_feature_names md))"

definition is_numeric :: "features \<Rightarrow> string \<Rightarrow> bool" where
  "is_numeric feats n = (case feats n of Some (Num r) \<Rightarrow> True | _ \<Rightarrow> False)"

definition numeric_or_absent :: "features \<Rightarrow> string \<Rightarrow> bool" where
  "numeric_or_absent feats n = (case feats n of None \<Rightarrow> True | Some (Num r) \<Rightarrow> True | _ \<Rightarrow> False)"

definition hist_value_ok :: "features \<Rightarrow> string \<Rightarrow> bool" where
  "hist_value_ok feats n = (case feats n of Some (Num r) \<Rightarrow> 0 < r | _ \<Rightarrow> False)"

text \<open>The number a name is mapped to, 0.0 when the map has none.\<close>

definition raw_value :: "features \<Rightarrow> string \<Rightarrow> real" where
  "raw_value feats n = (case feats n of Some (Num r) \<Rightarrow> r | _ \<Rightarrow> 0)"

text \<open>The raw history of a request, in the order of the window.\<close>

definition hist_raw_of :: "metadata \<Rightarrow> features \<Rightarrow> real list" where
  "hist_raw_of md feats = map (raw_value feats) (required_hist_names md)"

text \<open>
  What entry \<open>i\<close> of the input vector holds for base \<open>b\<close>: the scaled history value at a
  position of the window, 0.0 at a history position outside the window, the scaled
  noise value, and the value passed through (0.0 when absent) for any other name.
\<close>

definition transform_entry :: "metadata \<Rightarrow> features \<Rightarrow> real \<Rightarrow> nat \<Rightarrow> real" where
  "transform_entry md feats b i =
     (let name = get_feature_names md ! i
      in if i \<in> set (required_hist_positions md) then
           (if get_window_scale_mode md = ''none'' then raw_value feats name
            else raw_value feats name / b)
         else if startswith name ''DL_hist_'' then 0
         else if startswith name ''noise_'' then
           scale_noise_abs_db (raw_value feats name) (get_vmin md) (get_vmax md)
         else raw_value feats name)"

text \<open>What the noise loop and the loop of the other features can raise.\<close>

fun request_error :: "exn \<Rightarrow> bool" where
  "request_error (ValueError (MissingNoise n)) = True"
| "request_error (ValueError CouldNotConvert) = True"
| "request_error (ValueError (FeatureNotNumeric n)) = True"
| "request_error TypeError = True"
| "request_error _ = False"

text \<open>The scaling configuration is absent, nested under \<open>scaling\<close> and at the top level.\<close>

definition mode_absent :: "metadata \<Rightarrow> bool" where
  "mode_absent md =
     (sc_window_scale_mode (get_scaling md) = None \<and> window_scale_mode md = None)"

definition noise_absent :: "metadata \<Rightarrow> bool" where
  "noise_absent md = (sc_noise_scaling (get_scaling md) = None \<and> noise_scaling md = None)"


text \<open>The trailing integer of a history name, 0 when it has none.\<close>

definition suffix_of :: "string \<Rightarrow> int" where
  "suffix_of n = (case py_int (last_segment n) of Some k \<Rightarrow> k | None \<Rightarrow> 0)"

section \<open>Properties\<close>

lemmas eval_defs =
  predict_with_model_def get_feature_names_def get_window_size_def get_window_scale_mode_def
  get_scaling_def get_vmin_def get_vmax_def get_noise_cfg_def split_indices_def hist_idx_of_def
  noise_idx_of_def other_idx_of_def startswith_def ordered_hist_positions_def
  order_hist_positions_def py_int_def strip_def is_space_def parse_digits_def is_digit_def
  digit_val_def last_segment_def collect_hist_def missing_hist_def py_float_def assemble_def
  compute_window_base_def floor_base_def fill_hist_def scale_noise_abs_db_def mean_def upt_rec

subsection \<open>The index groups\<close>

lemma set_hist_idx_of:
  "set (hist_idx_of names) = {i. i < length names \<and> startswith (names ! i) ''DL_hist_''}"
  by (auto simp: hist_idx_of_def)

lemma set_noise_idx_of:
  "set (noise_idx_of names) = {i. i < length names \<and> startswith (names ! i) ''noise_''}"
  by (auto simp: noise_idx_of_def)

lemma set_other_idx_of:
  "set (other_idx_of names)
     = {i. i < length names \<and> \<not> startswith (names ! i) ''DL_hist_''
             \<and> \<not> startswith (names ! i) ''noise_''}"
  by (auto simp: other_idx_of_def set_hist_idx_of set_noise_idx_of)

lemma distinct_hist_idx_of: "distinct (hist_idx_of names)"
  by (simp add: hist_idx_of_def)

lemma not_hist_and_noise: "startswith s ''DL_hist_'' \<Longrightarrow> \<not> startswith s ''noise_''"
  by (cases s) (auto simp: startswith_def)

lemma set_order_hist_positions: "set (order_hist_positions names h) = set h"
proof (cases "h = []")
  case True
  then show ?thesis by (simp add: order_hist_positions_def)
next
  case False
  have "(\<lambda>k. h ! k) ` {0..<length h} = set h"
    by (auto simp: set_conv_nth)
  then show ?thesis
    using False by (simp add: order_hist_positions_def Let_def split: option.splits)
qed

lemma distinct_order_hist_positions:
  assumes "distinct h"
  shows "distinct (order_hist_positions names h)"
proof (cases "h = []")
  case True
  then show ?thesis by (simp add: order_hist_positions_def)
next
  case False
  have "inj_on (\<lambda>k. h ! k) {0..<length h}"
    using assms by (auto simp: inj_on_def nth_eq_iff_index_eq)
  then show ?thesis
    using False assms
    by (simp add: order_hist_positions_def Let_def distinct_map split: option.splits)
qed

lemma length_order_hist_positions: "length (order_hist_positions names h) = length h"
  by (simp add: order_hist_positions_def Let_def split: option.splits)

lemma set_ordered_hist_positions: "set (ordered_hist_positions names h w) \<subseteq> set h"
  using set_take_subset [of "nat w" "order_hist_positions names h"]
  by (auto simp: ordered_hist_positions_def set_order_hist_positions)

lemma distinct_ordered_hist_positions:
  "distinct h \<Longrightarrow> distinct (ordered_hist_positions names h w)"
  by (simp add: ordered_hist_positions_def distinct_order_hist_positions)

lemma length_ordered_hist_positions:
  "length (ordered_hist_positions names h w)
     = (if int (length h) = w then length h else min (length h) (nat w))"
  by (simp add: ordered_hist_positions_def length_order_hist_positions)

lemma ordered_hist_positions_nonempty:
  assumes "h \<noteq> []" and "0 < w"
  shows "ordered_hist_positions names h w \<noteq> []"
proof -
  have "0 < length h" and "0 < nat w"
    using assms by simp_all
  then have "0 < length (ordered_hist_positions names h w)"
    unfolding length_ordered_hist_positions by simp
  then show ?thesis
    by blast
qed

lemma required_hist_positions_facts:
  "set (required_hist_positions md) \<subseteq> set (hist_idx_of (get_feature_names md))"
  "distinct (required_hist_positions md)"
  by (simp_all add: required_hist_positions_def set_ordered_hist_positions
      distinct_ordered_hist_positions distinct_hist_idx_of)

lemma required_hist_positions_less:
  "i \<in> set (required_hist_positions md) \<Longrightarrow> i < length (get_feature_names md)"
  using required_hist_positions_facts(1) [of md] by (auto simp: set_hist_idx_of)

lemma required_hist_positions_hist:
  "i \<in> set (required_hist_positions md) \<Longrightarrow> startswith (get_feature_names md ! i) ''DL_hist_''"
  using required_hist_positions_facts(1) [of md] by (auto simp: set_hist_idx_of)

subsection \<open>Collecting the history\<close>

lemma missing_hist_empty_iff:
  "missing_hist feats ns = [] \<longleftrightarrow> (\<forall>n\<in>set ns. feats n \<noteq> None)"
  by (auto simp: missing_hist_def filter_empty_conv)

lemma hist_floats_numeric:
  "list_all (is_numeric feats) ns \<Longrightarrow> hist_floats feats ns = Inr (map (raw_value feats) ns)"
  by (induction ns)
    (auto simp: is_numeric_def raw_value_def py_float_def split: option.splits fval.splits)

lemma hist_floats_not_numeric:
  "\<forall>n\<in>set ns. feats n \<noteq> None \<Longrightarrow> \<not> list_all (is_numeric feats) ns
     \<Longrightarrow> hist_floats feats ns = Inl (ValueError HistNotNumeric)"
  by (induction ns)
    (auto simp: is_numeric_def py_float_def split: option.splits fval.splits sum.splits)

lemma collect_hist_cases:
  "collect_hist feats ns =
     (if missing_hist feats ns \<noteq> [] then Inl (ValueError (MissingHistory (missing_hist feats ns)))
      else if list_all (is_numeric feats) ns then Inr (map (raw_value feats) ns)
      else Inl (ValueError HistNotNumeric))"
proof (cases "missing_hist feats ns = []")
  case False
  then show ?thesis
    by (simp add: collect_hist_def Let_def)
next
  case True
  then have present: "\<forall>n\<in>set ns. feats n \<noteq> None"
    by (simp add: missing_hist_empty_iff)
  show ?thesis
  proof (cases "list_all (is_numeric feats) ns")
    case True
    with \<open>missing_hist feats ns = []\<close> show ?thesis
      by (simp add: collect_hist_def Let_def hist_floats_numeric)
  next
    case False
    with \<open>missing_hist feats ns = []\<close> present show ?thesis
      by (simp add: collect_hist_def Let_def hist_floats_not_numeric)
  qed
qed

subsection \<open>The front of the service\<close>

lemma predict_front:
  assumes "get_feature_names md \<noteq> []" and "0 < get_window_size md"
    and "get_vmin md < get_vmax md" and "hist_idx_of (get_feature_names md) \<noteq> []"
  shows "predict_with_model model md feats =
           (case collect_hist feats (required_hist_names md) of
              Inl e \<Rightarrow> Inl e
            | Inr hist_raw \<Rightarrow>
                if list_ex (\<lambda>v. v \<le> 0) hist_raw then Inl (ValueError HistNotPositive)
                else assemble model (get_feature_names md) feats (get_window_scale_mode md)
                       (get_vmin md) (get_vmax md) (required_hist_positions md)
                       (noise_idx_of (get_feature_names md)) (other_idx_of (get_feature_names md))
                       hist_raw)"
  using assms
  unfolding required_hist_names_def required_hist_positions_def
  by (simp add: predict_with_model_def Let_def split_indices_def)

subsection \<open>The noise transform\<close>

text \<open>
  C7: for bounds \<open>vmin < vmax\<close> the noise transform of a raw value \<open>v\<close> is
  \<open>(\<bar>v\<bar> - vmin) / (vmax - vmin)\<close> clamped to the interval from 0 to 1: it is 0 up to
  \<open>vmin\<close>, 1 from \<open>vmax\<close> on and the linear map in between. With the bounds 50 and
  150 the values -200, -10 and -100 go to 1, 0 and 1/2.
\<close>

theorem scale_noise_abs_db_clamp:
  "vmin < vmax \<Longrightarrow>
     scale_noise_abs_db v vmin vmax = min 1 (max 0 ((\<bar>v\<bar> - vmin) / (vmax - vmin)))
     \<and> scale_noise_abs_db v vmin vmax =
         (if \<bar>v\<bar> \<le> vmin then 0
          else if vmax \<le> \<bar>v\<bar> then 1
          else (\<bar>v\<bar> - vmin) / (vmax - vmin))
     \<and> 0 \<le> scale_noise_abs_db v vmin vmax
     \<and> scale_noise_abs_db v vmin vmax \<le> 1"
  by (auto simp: scale_noise_abs_db_def Let_def min_def max_def divide_simps)

theorem scale_noise_abs_db_clamp_witness:
  "(50::real) < 150
   \<and> scale_noise_abs_db (- 200) 50 150 = 1
   \<and> scale_noise_abs_db (- 10) 50 150 = 0
   \<and> scale_noise_abs_db (- 100) 50 150 = 1 / 2"
proof -
  have h: "(50::real) < 150" by simp
  show ?thesis
    using h scale_noise_abs_db_clamp [OF h, of "- 200"] scale_noise_abs_db_clamp [OF h, of "- 10"]
      scale_noise_abs_db_clamp [OF h, of "- 100"]
    by simp
qed

subsection \<open>The window base\<close>

lemma floor_base_eq: "floor_base = 1 / 10 ^ 8"
  by (simp add: floor_base_def)

lemma base_mean:
  "hist_raw \<noteq> [] \<Longrightarrow>
     compute_window_base hist_raw ''window_mean''
       = Inr (max (sum_list hist_raw / real (length hist_raw)) floor_base)"
  by (simp add: compute_window_base_def mean_def)

lemma base_anchor:
  "hist_raw \<noteq> [] \<Longrightarrow>
     compute_window_base hist_raw ''window_anchor'' = Inr (max (last hist_raw) floor_base)"
  by (simp add: compute_window_base_def)

lemma base_none: "compute_window_base hist_raw ''none'' = Inr 1"
  by (simp add: compute_window_base_def floor_base_def)

lemma base_unknown:
  "mode \<notin> {''window_mean'', ''window_anchor'', ''none''}
     \<Longrightarrow> compute_window_base hist_raw mode = Inl (ValueError (UnknownMode mode))"
  by (simp add: compute_window_base_def)

lemma base_floor: "compute_window_base hist_raw mode = Inr b \<Longrightarrow> floor_base \<le> b"
  by (auto simp: compute_window_base_def split: if_splits)

text \<open>
  C6: for a non-empty list of raw history values the base under \<open>window_mean\<close> is the
  arithmetic mean of the values and under \<open>none\<close> it is 1, each floored at \<open>1e-8\<close>;
  a mode that is none of \<open>window_mean\<close>, \<open>window_anchor\<close>, \<open>none\<close> is the
  unknown-mode error; and a base that is returned is never below \<open>1e-8\<close>.
\<close>

theorem compute_window_base_modes:
  "hist_raw \<noteq> [] \<Longrightarrow>
     floor_base = 1 / 10 ^ 8
     \<and> compute_window_base hist_raw ''window_mean''
         = Inr (max (sum_list hist_raw / real (length hist_raw)) floor_base)
     \<and> compute_window_base hist_raw ''none'' = Inr 1
     \<and> (mode \<notin> {''window_mean'', ''window_anchor'', ''none''}
          \<longrightarrow> compute_window_base hist_raw mode = Inl (ValueError (UnknownMode mode)))
     \<and> (\<forall>b. compute_window_base hist_raw mode = Inr b \<longrightarrow> floor_base \<le> b)"
  using floor_base_eq base_mean [of hist_raw] base_none [of hist_raw]
    base_unknown [of mode hist_raw] base_floor [of hist_raw mode]
  by blast

theorem compute_window_base_modes_witness:
  "[2, 4] \<noteq> ([]::real list)
   \<and> compute_window_base [2, 4] ''window_mean'' = Inr 3
   \<and> compute_window_base [2, 4] ''none'' = Inr 1
   \<and> ''bogus'' \<notin> {''window_mean'', ''window_anchor'', ''none''}
   \<and> compute_window_base [2, 4] ''bogus'' = Inl (ValueError (UnknownMode ''bogus''))
   \<and> compute_window_base [1 / 10 ^ 9] ''window_mean'' = Inr (1 / 10 ^ 8)
   \<and> compute_window_base [1 / 10 ^ 9] ''window_anchor'' = Inr (1 / 10 ^ 8)
   \<and> floor_base \<le> 1 / 10 ^ 8"
proof -
  have h1: "[2, 4] \<noteq> ([]::real list)" and h2: "[1 / 10 ^ 9] \<noteq> ([]::real list)"
    by simp_all
  have nb: "''bogus'' \<notin> {''window_mean'', ''window_anchor'', ''none''}"
    by simp
  have a: "compute_window_base [1 / 10 ^ 9] ''window_anchor'' = Inr (1 / 10 ^ 8)"
    by (simp add: compute_window_base_def floor_base_def)
  have m3: "max (sum_list [2, 4] / real (length [2, 4::real])) floor_base = 3"
    by (simp add: floor_base_def)
  have m9: "max (sum_list [1 / 10 ^ 9] / real (length [1 / 10 ^ 9::real])) floor_base = 1 / 10 ^ 8"
    by (simp add: floor_base_def)
  from compute_window_base_modes [OF h1, of "''bogus''"] nb m3
  have p1: "compute_window_base [2, 4] ''window_mean'' = Inr 3
     \<and> compute_window_base [2, 4] ''none'' = Inr 1
     \<and> compute_window_base [2, 4] ''bogus'' = Inl (ValueError (UnknownMode ''bogus''))"
    by presburger
  from compute_window_base_modes [OF h2, of "''window_anchor''"] a m9
  have p2: "compute_window_base [1 / 10 ^ 9] ''window_mean'' = Inr (1 / 10 ^ 8)
     \<and> floor_base \<le> 1 / 10 ^ 8"
    by presburger
  from h1 nb a p1 p2 show ?thesis
    by blast
qed

subsection \<open>The order of the history positions\<close>

lemma suffix_keys_None:
  "n \<in> set ns \<Longrightarrow> py_int (last_segment n) = None \<Longrightarrow> suffix_keys ns = None"
  by (induction ns) (auto split: option.splits)

text \<open>
  C8: when the trailing segment of one of the history names is not an integer, the
  ordering step returns the history positions as they are declared; it returns a list
  in every case, so it raises nothing. For the names \<open>DL_hist_foo\<close>, \<open>DL_hist_bar\<close> the
  order is the declared one and the request goes through.
\<close>

theorem order_hist_positions_fallback:
  "i \<in> set hist_idx \<Longrightarrow> py_int (last_segment (names ! i)) = None
     \<Longrightarrow> order_hist_positions names hist_idx = hist_idx"
proof -
  assume i: "i \<in> set hist_idx" and bad: "py_int (last_segment (names ! i)) = None"
  from i have "names ! i \<in> set (map (\<lambda>i. names ! i) hist_idx)"
    by simp
  then have "suffix_keys (map (\<lambda>i. names ! i) hist_idx) = None"
    using bad by (rule suffix_keys_None)
  then show ?thesis
    by (simp add: order_hist_positions_def)
qed

theorem order_hist_positions_fallback_witness:
  "(0::nat) \<in> set [0, 1]
   \<and> py_int (last_segment ([''DL_hist_foo'', ''DL_hist_bar''] ! 0)) = None
   \<and> hist_idx_of [''DL_hist_foo'', ''DL_hist_bar''] = [0, 1]
   \<and> order_hist_positions [''DL_hist_foo'', ''DL_hist_bar''] [0, 1] = [0, 1]
   \<and> predict_with_model (\<lambda>x. Some 1)
        \<lparr>feature_names = Some [''DL_hist_foo'', ''DL_hist_bar''], feature_names_in = None,
         window_size = Some 2, scaling = None, window_scale_mode = Some ''window_anchor'',
         noise_scaling = None\<rparr>
        [''DL_hist_foo'' \<mapsto> Num 4, ''DL_hist_bar'' \<mapsto> Num 2]
      = Inr \<lparr>y_pred = 2, y_pred_scaled = 1, base = 2, x_vector = [2, 1],
             res_feature_names = [''DL_hist_foo'', ''DL_hist_bar'']\<rparr>"
proof -
  have h1: "(0::nat) \<in> set [0, 1]"
    by simp
  have h2: "py_int (last_segment ([''DL_hist_foo'', ''DL_hist_bar''] ! 0)) = None"
    by (simp add: eval_defs)
  have h3: "hist_idx_of [''DL_hist_foo'', ''DL_hist_bar''] = [0, 1]"
    by (simp add: eval_defs)
  have run: "predict_with_model (\<lambda>x. Some 1)
        \<lparr>feature_names = Some [''DL_hist_foo'', ''DL_hist_bar''], feature_names_in = None,
         window_size = Some 2, scaling = None, window_scale_mode = Some ''window_anchor'',
         noise_scaling = None\<rparr>
        [''DL_hist_foo'' \<mapsto> Num 4, ''DL_hist_bar'' \<mapsto> Num 2]
      = Inr \<lparr>y_pred = 2, y_pred_scaled = 1, base = 2, x_vector = [2, 1],
             res_feature_names = [''DL_hist_foo'', ''DL_hist_bar'']\<rparr>"
    by (simp add: eval_defs)
  show ?thesis
    using h1 h2 h3 run order_hist_positions_fallback [OF h1 h2]
    by simp
qed

subsection \<open>Filling the vector\<close>

lemma fill_hist_map:
  "length (fill_hist ps (map f ps) x) = length x
   \<and> (\<forall>i<length x. fill_hist ps (map f ps) x ! i = (if i \<in> set ps then f i else x ! i))"
proof (induction ps arbitrary: x)
  case Nil
  then show ?case by (simp add: fill_hist_def)
next
  case (Cons p ps)
  have step: "fill_hist (p # ps) (map f (p # ps)) x = fill_hist ps (map f ps) (x[p := f p])"
    by (simp add: fill_hist_def)
  show ?case
    unfolding step using Cons.IH [of "x[p := f p]"]
    by (auto simp: nth_list_update)
qed

lemma fill_noise_ok:
  "\<forall>p\<in>set ps. is_numeric feats (names ! p) \<Longrightarrow>
     \<exists>x'. fill_noise names feats vmin vmax ps x = Inr x' \<and> length x' = length x
       \<and> (\<forall>i<length x. x' ! i =
             (if i \<in> set ps then scale_noise_abs_db (raw_value feats (names ! i)) vmin vmax
              else x ! i))"
proof (induction ps arbitrary: x)
  case Nil
  then show ?case by simp
next
  case (Cons p ps)
  from Cons.prems obtain r where r: "feats (names ! p) = Some (Num r)"
    by (auto simp: is_numeric_def split: option.splits fval.splits)
  let ?x = "x[p := scale_noise_abs_db r vmin vmax]"
  have step: "fill_noise names feats vmin vmax (p # ps) x = fill_noise names feats vmin vmax ps ?x"
    using r by (simp add: py_float_def)
  from Cons.prems have "\<forall>p\<in>set ps. is_numeric feats (names ! p)"
    by simp
  from Cons.IH [OF this, of ?x] obtain x' where
    x': "fill_noise names feats vmin vmax ps ?x = Inr x'" "length x' = length ?x"
      "\<forall>i<length ?x. x' ! i =
          (if i \<in> set ps then scale_noise_abs_db (raw_value feats (names ! i)) vmin vmax
           else ?x ! i)"
    by blast
  have rv: "raw_value feats (names ! p) = r"
    using r by (simp add: raw_value_def)
  show ?case
    unfolding step using x' rv by (auto simp: nth_list_update)
qed

lemma fill_other_ok:
  "\<forall>p\<in>set ps. numeric_or_absent feats (names ! p) \<Longrightarrow>
     \<exists>x'. fill_other names feats ps x = Inr x' \<and> length x' = length x
       \<and> (\<forall>i<length x. x' ! i =
             (if i \<in> set ps \<and> feats (names ! i) \<noteq> None then raw_value feats (names ! i)
              else x ! i))"
proof (induction ps arbitrary: x)
  case Nil
  then show ?case by simp
next
  case (Cons p ps)
  from Cons.prems have rest: "\<forall>p\<in>set ps. numeric_or_absent feats (names ! p)"
    by simp
  show ?case
  proof (cases "feats (names ! p)")
    case None
    then have step: "fill_other names feats (p # ps) x = fill_other names feats ps x"
      by simp
    show ?thesis
      unfolding step using Cons.IH [OF rest, of x] None by auto
  next
    case (Some v)
    with Cons.prems obtain r where r: "feats (names ! p) = Some (Num r)"
      by (auto simp: numeric_or_absent_def split: fval.splits)
    let ?x = "x[p := r]"
    have step: "fill_other names feats (p # ps) x = fill_other names feats ps ?x"
      using r by (simp add: py_float_def)
    have rv: "raw_value feats (names ! p) = r"
      using r by (simp add: raw_value_def)
    from Cons.IH [OF rest, of ?x] obtain x' where
      x': "fill_other names feats ps ?x = Inr x'" "length x' = length ?x"
        "\<forall>i<length ?x. x' ! i =
            (if i \<in> set ps \<and> feats (names ! i) \<noteq> None then raw_value feats (names ! i)
             else ?x ! i)"
      by blast
    have "x' ! i =
            (if i \<in> set (p # ps) \<and> feats (names ! i) \<noteq> None then raw_value feats (names ! i)
             else x ! i)" if "i < length x" for i
    proof (cases "i = p")
      case True
      with that x'(3) rv r show ?thesis by simp
    next
      case False
      with that x'(3) show ?thesis by auto
    qed
    then show ?thesis
      unfolding step using x'(1,2) by simp
  qed
qed

text \<open>What the loops can raise.\<close>

lemma fill_noise_error:
  "fill_noise names feats vmin vmax ps x = Inl e \<Longrightarrow>
     (\<exists>n. e = ValueError (MissingNoise n)) \<or> e = ValueError CouldNotConvert \<or> e = TypeError"
  by (induction ps arbitrary: x)
    (auto simp: py_float_def Let_def split: option.splits fval.splits)

lemma fill_other_error:
  "fill_other names feats ps x = Inl e \<Longrightarrow> \<exists>n. e = ValueError (FeatureNotNumeric n)"
  by (induction ps arbitrary: x)
    (auto simp: py_float_def Let_def split: option.splits fval.splits)

lemma fill_noise_missing:
  "\<exists>p\<in>set ps. feats (names ! p) = None \<Longrightarrow>
     \<exists>e. fill_noise names feats vmin vmax ps x = Inl e"
  by (induction ps arbitrary: x)
    (auto simp: py_float_def Let_def split: option.splits fval.splits)

lemma fill_noise_first_missing:
  "\<forall>q\<in>set qs. is_numeric feats (names ! q) \<Longrightarrow> feats (names ! p) = None \<Longrightarrow>
     fill_noise names feats vmin vmax (qs @ p # rs) x = Inl (ValueError (MissingNoise (names ! p)))"
  by (induction qs arbitrary: x)
    (auto simp: py_float_def Let_def is_numeric_def split: option.splits fval.splits)

subsection \<open>A request that goes through\<close>

lemma known_mode_base:
  assumes "known_mode mode" and "hist_raw \<noteq> []"
  shows "\<exists>b. compute_window_base hist_raw mode = Inr b"
proof -
  from assms(1) consider "mode = ''window_mean''" | "mode = ''window_anchor''" | "mode = ''none''"
    by (auto simp: known_mode_def)
  then show ?thesis
  proof cases
    case 1
    then show ?thesis using base_mean [OF assms(2)] by blast
  next
    case 2
    then show ?thesis using base_anchor [OF assms(2)] by blast
  next
    case 3
    then show ?thesis using base_none [of hist_raw] by blast
  qed
qed

lemma assemble_ok:
  assumes hr: "hist_raw = map (raw_value feats) (map (\<lambda>i. names ! i) ps)"
    and b: "compute_window_base hist_raw mode = Inr b"
    and nz: "\<forall>p\<in>set noise. is_numeric feats (names ! p)"
    and ot: "\<forall>p\<in>set other. numeric_or_absent feats (names ! p)"
  shows "\<exists>x. length x = length names
           \<and> (\<forall>i<length names. x ! i =
                 (if i \<in> set other \<and> feats (names ! i) \<noteq> None then raw_value feats (names ! i)
                  else if i \<in> set noise
                    then scale_noise_abs_db (raw_value feats (names ! i)) vmin vmax
                  else if i \<in> set ps
                    then (if mode = ''none'' then raw_value feats (names ! i)
                          else raw_value feats (names ! i) / b)
                  else 0))
           \<and> assemble model names feats mode vmin vmax ps noise other hist_raw =
               (case model x of
                  None \<Rightarrow> Inl InferenceError
                | Some y \<Rightarrow> Inr \<lparr>y_pred = y * b, y_pred_scaled = y, base = b, x_vector = x,
                                 res_feature_names = names\<rparr>)"
proof -
  let ?f = "\<lambda>i. if mode = ''none'' then raw_value feats (names ! i)
                 else raw_value feats (names ! i) / b"
  let ?x0 = "replicate (length names) (0::real)"
  let ?x1 = "fill_hist ps (map ?f ps) ?x0"
  have scaled: "(if mode = ''none'' then hist_raw else map (\<lambda>v. v / b) hist_raw) = map ?f ps"
    by (simp add: hr)
  have x1: "length ?x1 = length names"
    "\<forall>i<length names. ?x1 ! i = (if i \<in> set ps then ?f i else 0)"
    using fill_hist_map [of ps ?f ?x0] by simp_all
  from fill_noise_ok [OF nz, of vmin vmax ?x1] obtain x2 where
    x2: "fill_noise names feats vmin vmax noise ?x1 = Inr x2" "length x2 = length ?x1"
      "\<forall>i<length ?x1. x2 ! i =
          (if i \<in> set noise then scale_noise_abs_db (raw_value feats (names ! i)) vmin vmax
           else ?x1 ! i)"
    by blast
  from fill_other_ok [OF ot, of x2] obtain x where
    x: "fill_other names feats other x2 = Inr x" "length x = length x2"
      "\<forall>i<length x2. x ! i =
          (if i \<in> set other \<and> feats (names ! i) \<noteq> None then raw_value feats (names ! i)
           else x2 ! i)"
    by blast
  have len: "length x = length names"
    using x(2) x2(2) x1(1) by simp
  have nth: "x ! i =
       (if i \<in> set other \<and> feats (names ! i) \<noteq> None then raw_value feats (names ! i)
        else if i \<in> set noise
          then scale_noise_abs_db (raw_value feats (names ! i)) vmin vmax
        else if i \<in> set ps then ?f i
        else 0)" if "i < length names" for i
  proof -
    from that have i1: "i < length ?x1" and i2: "i < length x2"
      using x1(1) x2(2) by simp_all
    from x(3) i2 have a: "x ! i =
          (if i \<in> set other \<and> feats (names ! i) \<noteq> None then raw_value feats (names ! i)
           else x2 ! i)"
      by blast
    from x2(3) i1 have b: "x2 ! i =
          (if i \<in> set noise then scale_noise_abs_db (raw_value feats (names ! i)) vmin vmax
           else ?x1 ! i)"
      by blast
    from x1(2) that have c: "?x1 ! i = (if i \<in> set ps then ?f i else 0)"
      by blast
    show ?thesis
      unfolding a b c by simp
  qed
  have run: "assemble model names feats mode vmin vmax ps noise other hist_raw =
               (case model x of
                  None \<Rightarrow> Inl InferenceError
                | Some y \<Rightarrow> Inr \<lparr>y_pred = y * b, y_pred_scaled = y, base = b, x_vector = x,
                                 res_feature_names = names\<rparr>)"
    unfolding assemble_def b Let_def sum.case scaled x2(1) x(1) by simp
  from len nth run show ?thesis
    by blast
qed

lemma hist_value_ok_D:
  "hist_value_ok feats n \<Longrightarrow> feats n \<noteq> None \<and> is_numeric feats n \<and> 0 < raw_value feats n"
  by (auto simp: hist_value_ok_def is_numeric_def raw_value_def split: option.splits fval.splits)

lemma collect_hist_ok:
  assumes "list_all (hist_value_ok feats) ns"
  shows "collect_hist feats ns = Inr (map (raw_value feats) ns)"
    and "\<not> list_ex (\<lambda>v. v \<le> 0) (map (raw_value feats) ns)"
proof -
  from assms have "\<forall>n\<in>set ns. feats n \<noteq> None" and "list_all (is_numeric feats) ns"
    using hist_value_ok_D by (auto simp: list_all_iff)
  then show "collect_hist feats ns = Inr (map (raw_value feats) ns)"
    by (simp add: collect_hist_cases missing_hist_empty_iff)
  from assms show "\<not> list_ex (\<lambda>v. v \<le> 0) (map (raw_value feats) ns)"
    using hist_value_ok_D by (fastforce simp: list_all_iff list_ex_iff)
qed

lemma valid_metadata_D:
  "valid_metadata md \<Longrightarrow>
     get_feature_names md \<noteq> [] \<and> 0 < get_window_size md \<and> get_vmin md < get_vmax md
     \<and> hist_idx_of (get_feature_names md) \<noteq> [] \<and> known_mode (get_window_scale_mode md)"
  by (simp add: valid_metadata_def)

lemma required_hist_names_nonempty:
  "hist_idx_of (get_feature_names md) \<noteq> [] \<Longrightarrow> 0 < get_window_size md
     \<Longrightarrow> required_hist_names md \<noteq> []"
  by (simp add: required_hist_names_def required_hist_positions_def
      ordered_hist_positions_nonempty)

lemma entry_transform:
  assumes "i < length (get_feature_names md)"
  shows "(if i \<in> set (other_idx_of (get_feature_names md)) \<and> feats (get_feature_names md ! i) \<noteq> None
            then raw_value feats (get_feature_names md ! i)
          else if i \<in> set (noise_idx_of (get_feature_names md))
            then scale_noise_abs_db (raw_value feats (get_feature_names md ! i))
                   (get_vmin md) (get_vmax md)
          else if i \<in> set (required_hist_positions md)
            then (if get_window_scale_mode md = ''none''
                  then raw_value feats (get_feature_names md ! i)
                  else raw_value feats (get_feature_names md ! i) / b)
          else 0)
         = transform_entry md feats b i"
proof -
  let ?n = "get_feature_names md ! i"
  consider (req) "i \<in> set (required_hist_positions md)"
    | (hist) "i \<notin> set (required_hist_positions md)" "startswith ?n ''DL_hist_''"
    | (noise) "\<not> startswith ?n ''DL_hist_''" "startswith ?n ''noise_''"
    | (other) "\<not> startswith ?n ''DL_hist_''" "\<not> startswith ?n ''noise_''"
    by blast
  then show ?thesis
  proof cases
    case req
    then have h: "startswith ?n ''DL_hist_''"
      by (rule required_hist_positions_hist)
    then have "\<not> startswith ?n ''noise_''"
      by (rule not_hist_and_noise)
    with req h show ?thesis
      by (simp add: transform_entry_def Let_def set_other_idx_of set_noise_idx_of)
  next
    case hist
    from hist(2) have "\<not> startswith ?n ''noise_''"
      by (rule not_hist_and_noise)
    with hist show ?thesis
      by (simp add: transform_entry_def Let_def set_other_idx_of set_noise_idx_of)
  next
    case noise
    then have "i \<notin> set (required_hist_positions md)"
      using required_hist_positions_hist by blast
    with noise assms show ?thesis
      by (simp add: transform_entry_def Let_def set_other_idx_of set_noise_idx_of)
  next
    case other
    then have nr: "i \<notin> set (required_hist_positions md)"
      using required_hist_positions_hist by blast
    have "raw_value feats ?n = 0" if "feats ?n = None"
      using that by (simp add: raw_value_def)
    with other nr assms show ?thesis
      by (auto simp: transform_entry_def Let_def set_other_idx_of set_noise_idx_of)
  qed
qed

lemma predict_ok:
  assumes valid: "valid_metadata md"
    and hist: "list_all (hist_value_ok feats) (required_hist_names md)"
    and noise: "list_all (is_numeric feats) (required_noise_names md)"
    and other: "list_all (numeric_or_absent feats) (other_names md)"
  shows "\<exists>b x. compute_window_base (hist_raw_of md feats) (get_window_scale_mode md) = Inr b
           \<and> length x = length (get_feature_names md)
           \<and> (\<forall>i<length (get_feature_names md). x ! i = transform_entry md feats b i)
           \<and> predict_with_model model md feats =
               (case model x of
                  None \<Rightarrow> Inl InferenceError
                | Some y \<Rightarrow> Inr \<lparr>y_pred = y * b, y_pred_scaled = y, base = b, x_vector = x,
                                 res_feature_names = get_feature_names md\<rparr>)"
proof -
  let ?names = "get_feature_names md"
  let ?raw = "hist_raw_of md feats"
  note v = valid_metadata_D [OF valid]
  have ne: "?raw \<noteq> []"
    using required_hist_names_nonempty [of md] v by (simp add: hist_raw_of_def)
  from known_mode_base [OF _ ne, of "get_window_scale_mode md"] v obtain b where
    b: "compute_window_base ?raw (get_window_scale_mode md) = Inr b"
    by blast
  have hr: "?raw = map (raw_value feats) (map (\<lambda>i. ?names ! i) (required_hist_positions md))"
    by (simp add: hist_raw_of_def required_hist_names_def)
  have nz: "\<forall>p\<in>set (noise_idx_of ?names). is_numeric feats (?names ! p)"
    using noise by (simp add: required_noise_names_def list_all_iff)
  have ot: "\<forall>p\<in>set (other_idx_of ?names). numeric_or_absent feats (?names ! p)"
    using other by (simp add: other_names_def list_all_iff)
  from assemble_ok [OF hr b nz ot, of "get_vmin md" "get_vmax md" model] obtain x where
    x: "length x = length ?names"
      "\<forall>i<length ?names. x ! i =
         (if i \<in> set (other_idx_of ?names) \<and> feats (?names ! i) \<noteq> None
            then raw_value feats (?names ! i)
          else if i \<in> set (noise_idx_of ?names)
            then scale_noise_abs_db (raw_value feats (?names ! i)) (get_vmin md) (get_vmax md)
          else if i \<in> set (required_hist_positions md)
            then (if get_window_scale_mode md = ''none'' then raw_value feats (?names ! i)
                  else raw_value feats (?names ! i) / b)
          else 0)"
      "assemble model ?names feats (get_window_scale_mode md) (get_vmin md) (get_vmax md)
         (required_hist_positions md) (noise_idx_of ?names) (other_idx_of ?names) ?raw =
         (case model x of
            None \<Rightarrow> Inl InferenceError
          | Some y \<Rightarrow> Inr \<lparr>y_pred = y * b, y_pred_scaled = y, base = b, x_vector = x,
                           res_feature_names = ?names\<rparr>)"
    by blast
  have entries: "\<forall>i<length ?names. x ! i = transform_entry md feats b i"
    using x(2) entry_transform [of _ md feats b] by simp
  have collect: "collect_hist feats (required_hist_names md) = Inr ?raw"
    and pos: "\<not> list_ex (\<lambda>v. v \<le> 0) ?raw"
    using collect_hist_ok [OF hist] by (simp_all add: hist_raw_of_def)
  have "predict_with_model model md feats =
          assemble model ?names feats (get_window_scale_mode md) (get_vmin md) (get_vmax md)
            (required_hist_positions md) (noise_idx_of ?names) (other_idx_of ?names) ?raw"
    using v pos by (simp add: predict_front collect)
  with x(3) have run: "predict_with_model model md feats =
         (case model x of
            None \<Rightarrow> Inl InferenceError
          | Some y \<Rightarrow> Inr \<lparr>y_pred = y * b, y_pred_scaled = y, base = b, x_vector = x,
                           res_feature_names = ?names\<rparr>)"
    by simp
  from b x(1) entries run show ?thesis
    by blast
qed

subsection \<open>The failures, stage by stage\<close>

lemma predict_front_failure:
  "predict_with_model model md feats =
     (if get_feature_names md = [] then Inl (ValueError FeatureNamesRequired)
      else if get_window_size md \<le> 0 then Inl (ValueError WindowSizeNotPositive)
      else if get_vmax md \<le> get_vmin md then Inl (ValueError NoiseBoundsInvalid)
      else if hist_idx_of (get_feature_names md) = [] then Inl (ValueError NoHistFeatures)
      else predict_with_model model md feats)"
  by (simp add: predict_with_model_def Let_def split_indices_def)

lemma not_hist_value_ok:
  assumes "\<not> list_all (hist_value_ok feats) ns" and "missing_hist feats ns = []"
    and "list_all (is_numeric feats) ns"
  shows "list_ex (\<lambda>v. v \<le> 0) (map (raw_value feats) ns)"
proof -
  from assms(1) obtain n where n: "n \<in> set ns" "\<not> hist_value_ok feats n"
    by (auto simp: list_all_iff)
  from assms(3) n(1) have "is_numeric feats n"
    by (simp add: list_all_iff)
  with n(2) have "raw_value feats n \<le> 0"
    by (auto simp: is_numeric_def hist_value_ok_def raw_value_def split: option.splits fval.splits)
  with n(1) show ?thesis
    by (auto simp: list_ex_iff)
qed

lemma predict_hist_failure:
  assumes "get_feature_names md \<noteq> []" and "0 < get_window_size md"
    and "get_vmin md < get_vmax md" and "hist_idx_of (get_feature_names md) \<noteq> []"
    and bad: "\<not> list_all (hist_value_ok feats) (required_hist_names md)"
  shows "predict_with_model model md feats =
           Inl (ValueError
             (if missing_hist feats (required_hist_names md) \<noteq> []
                then MissingHistory (missing_hist feats (required_hist_names md))
              else if list_all (is_numeric feats) (required_hist_names md) then HistNotPositive
              else HistNotNumeric))"
proof -
  let ?ns = "required_hist_names md"
  note front = predict_front [OF assms(1-4), of model feats]
  show ?thesis
  proof (cases "missing_hist feats ?ns = []")
    case False
    then show ?thesis
      unfolding front by (simp add: collect_hist_cases)
  next
    case True
    show ?thesis
    proof (cases "list_all (is_numeric feats) ?ns")
      case False
      with True show ?thesis
        unfolding front by (simp add: collect_hist_cases)
    next
      case num: True
      from not_hist_value_ok [OF bad True num] True num show ?thesis
        unfolding front by (simp add: collect_hist_cases)
    qed
  qed
qed

lemma predict_after_hist:
  assumes "get_feature_names md \<noteq> []" and "0 < get_window_size md"
    and "get_vmin md < get_vmax md" and "hist_idx_of (get_feature_names md) \<noteq> []"
    and ok: "list_all (hist_value_ok feats) (required_hist_names md)"
  shows "predict_with_model model md feats =
           assemble model (get_feature_names md) feats (get_window_scale_mode md)
             (get_vmin md) (get_vmax md) (required_hist_positions md)
             (noise_idx_of (get_feature_names md)) (other_idx_of (get_feature_names md))
             (hist_raw_of md feats)"
  using collect_hist_ok [OF ok]
  unfolding predict_front [OF assms(1-4)] hist_raw_of_def by simp

lemma known_mode_iff:
  "known_mode mode \<longleftrightarrow> mode \<in> {''window_mean'', ''window_anchor'', ''none''}"
  by (simp add: known_mode_def)

lemma predict_unknown_mode:
  assumes "get_feature_names md \<noteq> []" and "0 < get_window_size md"
    and "get_vmin md < get_vmax md" and "hist_idx_of (get_feature_names md) \<noteq> []"
    and ok: "list_all (hist_value_ok feats) (required_hist_names md)"
    and unk: "\<not> known_mode (get_window_scale_mode md)"
  shows "predict_with_model model md feats =
           Inl (ValueError (UnknownMode (get_window_scale_mode md)))"
proof -
  from unk have "compute_window_base (hist_raw_of md feats) (get_window_scale_mode md)
                   = Inl (ValueError (UnknownMode (get_window_scale_mode md)))"
    using base_unknown by (simp add: known_mode_iff)
  then show ?thesis
    unfolding predict_after_hist [OF assms(1-5)] assemble_def by simp
qed

lemma fill_noise_fail:
  "\<not> (\<forall>p\<in>set ps. is_numeric feats (names ! p)) \<Longrightarrow>
     \<exists>e. fill_noise names feats vmin vmax ps x = Inl e"
  by (induction ps arbitrary: x)
    (auto simp: py_float_def Let_def is_numeric_def split: option.splits fval.splits)

lemma fill_other_fail:
  "\<not> (\<forall>p\<in>set ps. numeric_or_absent feats (names ! p)) \<Longrightarrow>
     \<exists>e. fill_other names feats ps x = Inl e"
  by (induction ps arbitrary: x)
    (auto simp: py_float_def Let_def numeric_or_absent_def split: option.splits fval.splits)

lemma assemble_fail:
  assumes b: "compute_window_base hist_raw mode = Inr b"
    and bad: "\<not> ((\<forall>p\<in>set noise. is_numeric feats (names ! p))
                \<and> (\<forall>p\<in>set other. numeric_or_absent feats (names ! p)))"
  shows "\<exists>e. assemble model names feats mode vmin vmax ps noise other hist_raw = Inl e
              \<and> request_error e"
proof -
  let ?x1 = "fill_hist ps (if mode = ''none'' then hist_raw else map (\<lambda>v. v / b) hist_raw)
               (replicate (length names) 0)"
  have unf: "assemble model names feats mode vmin vmax ps noise other hist_raw =
          (case fill_noise names feats vmin vmax noise ?x1 of
             Inl e \<Rightarrow> Inl e
           | Inr x2 \<Rightarrow>
               (case fill_other names feats other x2 of
                  Inl e \<Rightarrow> Inl e
                | Inr x \<Rightarrow>
                    (case model x of
                       None \<Rightarrow> Inl InferenceError
                     | Some y \<Rightarrow> Inr \<lparr>y_pred = y * b, y_pred_scaled = y, base = b,
                                      x_vector = x, res_feature_names = names\<rparr>)))"
    unfolding assemble_def b Let_def sum.case by (rule refl)
  show ?thesis
  proof (cases "fill_noise names feats vmin vmax noise ?x1")
    case (Inl e)
    with fill_noise_error [OF Inl] show ?thesis
      unfolding unf by auto
  next
    case (Inr x2)
    then have "\<forall>p\<in>set noise. is_numeric feats (names ! p)"
      using fill_noise_fail [of noise feats names vmin vmax ?x1] by auto
    with bad have "\<not> (\<forall>p\<in>set other. numeric_or_absent feats (names ! p))"
      by blast
    from fill_other_fail [OF this, of x2] obtain e where e: "fill_other names feats other x2 = Inl e"
      by blast
    with fill_other_error [OF e] Inr show ?thesis
      unfolding unf by auto
  qed
qed

lemma predict_request_failure:
  assumes valid: "valid_metadata md"
    and ok: "list_all (hist_value_ok feats) (required_hist_names md)"
    and bad: "\<not> (list_all (is_numeric feats) (required_noise_names md)
                 \<and> list_all (numeric_or_absent feats) (other_names md))"
  shows "\<exists>e. predict_with_model model md feats = Inl e \<and> request_error e"
proof -
  note v = valid_metadata_D [OF valid]
  have ne: "hist_raw_of md feats \<noteq> []"
    using required_hist_names_nonempty [of md] v by (simp add: hist_raw_of_def)
  from known_mode_base [OF _ ne, of "get_window_scale_mode md"] v obtain b where
    b: "compute_window_base (hist_raw_of md feats) (get_window_scale_mode md) = Inr b"
    by blast
  from bad have bad': "\<not> ((\<forall>p\<in>set (noise_idx_of (get_feature_names md)).
                             is_numeric feats (get_feature_names md ! p))
                \<and> (\<forall>p\<in>set (other_idx_of (get_feature_names md)).
                      numeric_or_absent feats (get_feature_names md ! p)))"
    by (simp add: required_noise_names_def other_names_def list_all_iff)
  have run: "predict_with_model model md feats =
           assemble model (get_feature_names md) feats (get_window_scale_mode md)
             (get_vmin md) (get_vmax md) (required_hist_positions md)
             (noise_idx_of (get_feature_names md)) (other_idx_of (get_feature_names md))
             (hist_raw_of md feats)"
    using v ok by (simp add: predict_after_hist)
  show ?thesis
    unfolding run by (rule assemble_fail [OF b bad'])
qed

text \<open>A request goes through only for valid metadata and a request that passes every check.\<close>

lemma predict_Inr_D:
  assumes run: "predict_with_model model md feats = Inr r"
  shows "valid_metadata md \<and> list_all (hist_value_ok feats) (required_hist_names md)
         \<and> list_all (is_numeric feats) (required_noise_names md)
         \<and> list_all (numeric_or_absent feats) (other_names md)"
proof -
  have front: "get_feature_names md \<noteq> []" "0 < get_window_size md"
    "get_vmin md < get_vmax md" "hist_idx_of (get_feature_names md) \<noteq> []"
    using run predict_front_failure [of model md feats]
    by (auto split: if_splits)
  have ok: "list_all (hist_value_ok feats) (required_hist_names md)"
    using run predict_hist_failure [OF front, of feats model] by auto
  have km: "known_mode (get_window_scale_mode md)"
    using run predict_unknown_mode [OF front ok, of model] by auto
  from front km have valid: "valid_metadata md"
    by (simp add: valid_metadata_def)
  have "list_all (is_numeric feats) (required_noise_names md)
         \<and> list_all (numeric_or_absent feats) (other_names md)"
    using run predict_request_failure [OF valid ok, of model] by auto
  with valid ok show ?thesis
    by blast
qed

lemma predict_Inr_result:
  assumes run: "predict_with_model model md feats = Inr r"
  shows "compute_window_base (hist_raw_of md feats) (get_window_scale_mode md) = Inr (base r)
         \<and> length (x_vector r) = length (get_feature_names md)
         \<and> (\<forall>i<length (get_feature_names md).
               x_vector r ! i = transform_entry md feats (base r) i)
         \<and> model (x_vector r) = Some (y_pred_scaled r)
         \<and> y_pred r = y_pred_scaled r * base r
         \<and> res_feature_names r = get_feature_names md"
proof -
  from predict_Inr_D [OF run] have c: "valid_metadata md"
    "list_all (hist_value_ok feats) (required_hist_names md)"
    "list_all (is_numeric feats) (required_noise_names md)"
    "list_all (numeric_or_absent feats) (other_names md)"
    by simp_all
  from predict_ok [OF c, of model] obtain b x where
    bx: "compute_window_base (hist_raw_of md feats) (get_window_scale_mode md) = Inr b"
      "length x = length (get_feature_names md)"
      "\<forall>i<length (get_feature_names md). x ! i = transform_entry md feats b i"
      "predict_with_model model md feats =
         (case model x of
            None \<Rightarrow> Inl InferenceError
          | Some y \<Rightarrow> Inr \<lparr>y_pred = y * b, y_pred_scaled = y, base = b, x_vector = x,
                           res_feature_names = get_feature_names md\<rparr>)"
    by blast
  from bx(4) run obtain y where y: "model x = Some y"
    and r: "r = \<lparr>y_pred = y * b, y_pred_scaled = y, base = b, x_vector = x,
                 res_feature_names = get_feature_names md\<rparr>"
    by (cases "model x") auto
  show ?thesis
    using bx(1-3) y unfolding r by simp
qed

subsection \<open>Requests that are rejected\<close>

text \<open>
  C5: for valid metadata, when the value of a required history feature is not numeric or
  is not above zero, the service fails with a validation error and returns no result:
  the missing-history error when a required history name is absent as well, else the
  not-numeric error when some required history value is not numeric, else the
  not-positive error.
\<close>

theorem bad_history_value_rejected:
  "valid_metadata md \<Longrightarrow> n \<in> set (required_hist_names md) \<Longrightarrow> feats n = Some v
     \<Longrightarrow> v = BadStr \<or> v = BadType \<or> (\<exists>r. v = Num r \<and> r \<le> 0)
     \<Longrightarrow> (\<exists>m. predict_with_model model md feats = Inl (ValueError m)
               \<and> validation_message m
               \<and> m = (if missing_hist feats (required_hist_names md) \<noteq> []
                         then MissingHistory (missing_hist feats (required_hist_names md))
                       else if list_all (is_numeric feats) (required_hist_names md)
                         then HistNotPositive
                       else HistNotNumeric))"
proof -
  assume valid: "valid_metadata md" and n: "n \<in> set (required_hist_names md)"
    and v: "feats n = Some v" and bad: "v = BadStr \<or> v = BadType \<or> (\<exists>r. v = Num r \<and> r \<le> 0)"
  from v bad have "\<not> hist_value_ok feats n"
    by (auto simp: hist_value_ok_def)
  with n have nok: "\<not> list_all (hist_value_ok feats) (required_hist_names md)"
    by (auto simp: list_all_iff)
  note v = valid_metadata_D [OF valid]
  have "predict_with_model model md feats =
           Inl (ValueError
             (if missing_hist feats (required_hist_names md) \<noteq> []
                then MissingHistory (missing_hist feats (required_hist_names md))
              else if list_all (is_numeric feats) (required_hist_names md) then HistNotPositive
              else HistNotNumeric))"
    using v nok by (simp add: predict_hist_failure)
  then show ?thesis
    by simp
qed

theorem bad_history_value_rejected_witness:
  "valid_metadata
     \<lparr>feature_names = Some [''noise_target'', ''DL_hist_t_minus_0'', ''DL_hist_t_minus_1''],
      feature_names_in = None, window_size = Some 2, scaling = None,
      window_scale_mode = None, noise_scaling = None\<rparr>
   \<and> ''DL_hist_t_minus_0'' \<in> set (required_hist_names
     \<lparr>feature_names = Some [''noise_target'', ''DL_hist_t_minus_0'', ''DL_hist_t_minus_1''],
      feature_names_in = None, window_size = Some 2, scaling = None,
      window_scale_mode = None, noise_scaling = None\<rparr>)
   \<and> predict_with_model (\<lambda>x. Some 1)
     \<lparr>feature_names = Some [''noise_target'', ''DL_hist_t_minus_0'', ''DL_hist_t_minus_1''],
      feature_names_in = None, window_size = Some 2, scaling = None,
      window_scale_mode = None, noise_scaling = None\<rparr>
     [''noise_target'' \<mapsto> Num (- 100), ''DL_hist_t_minus_0'' \<mapsto> Num (- 5),
      ''DL_hist_t_minus_1'' \<mapsto> Num 7]
     = Inl (ValueError HistNotPositive)"
proof -
  let ?md = "\<lparr>feature_names = Some [''noise_target'', ''DL_hist_t_minus_0'', ''DL_hist_t_minus_1''],
      feature_names_in = None, window_size = Some 2, scaling = None,
      window_scale_mode = None, noise_scaling = None\<rparr>"
  let ?f = "[''noise_target'' \<mapsto> Num (- 100), ''DL_hist_t_minus_0'' \<mapsto> Num (- 5),
      ''DL_hist_t_minus_1'' \<mapsto> Num 7]"
  have names: "required_hist_names ?md = [''DL_hist_t_minus_0'', ''DL_hist_t_minus_1'']"
    by (simp add: required_hist_names_def required_hist_positions_def eval_defs)
  have valid: "valid_metadata ?md"
    by (simp add: valid_metadata_def known_mode_def eval_defs)
  have n: "''DL_hist_t_minus_0'' \<in> set (required_hist_names ?md)"
    unfolding names by simp
  have v: "?f ''DL_hist_t_minus_0'' = Some (Num (- 5))"
    by simp
  have bad: "Num (- 5) = BadStr \<or> Num (- 5) = BadType \<or> (\<exists>r. Num (- 5) = Num r \<and> r \<le> 0)"
    by simp
  have miss: "missing_hist ?f (required_hist_names ?md) = []"
    unfolding names by (simp add: missing_hist_def)
  have num: "list_all (is_numeric ?f) (required_hist_names ?md)"
    unfolding names by (simp add: is_numeric_def)
  from bad_history_value_rejected
      [where md = ?md and n = "''DL_hist_t_minus_0''" and feats = ?f and v = "Num (- 5)"
         and model = "\<lambda>x. Some 1", OF valid n v bad] miss num
  have "predict_with_model (\<lambda>x. Some 1) ?md ?f = Inl (ValueError HistNotPositive)"
    by auto
  with valid n show ?thesis
    by blast
qed

lemma assemble_noise_missing:
  assumes b: "compute_window_base hist_raw mode = Inr b"
    and split: "noise = qs @ p # rs"
    and before: "\<forall>q\<in>set qs. is_numeric feats (names ! q)"
    and missing: "feats (names ! p) = None"
  shows "assemble model names feats mode vmin vmax ps noise other hist_raw
           = Inl (ValueError (MissingNoise (names ! p)))"
  unfolding assemble_def b Let_def sum.case split
  by (simp add: fill_noise_first_missing [OF before missing])

text \<open>
  C4, as the code has it: for valid metadata, (1) when required history names are
  absent from the request the service fails with the missing-history error that lists
  exactly the absent ones, in the order of the window; (2) when the history passes its
  checks and a required noise name is absent, the noise values before it being numeric,
  the service fails with the missing-noise error that names it; (3) whenever a required
  history or noise name is absent the service fails with a validation error and returns
  no result, but that error need not name the absent feature.
\<close>

theorem missing_feature_rejected:
  "valid_metadata md \<Longrightarrow>
     (missing_hist feats (required_hist_names md) \<noteq> [] \<longrightarrow>
        predict_with_model model md feats
          = Inl (ValueError (MissingHistory (missing_hist feats (required_hist_names md)))))
     \<and> (list_all (hist_value_ok feats) (required_hist_names md)
          \<and> noise_idx_of (get_feature_names md) = qs @ p # rs
          \<and> list_all (is_numeric feats) (map (\<lambda>i. get_feature_names md ! i) qs)
          \<and> feats (get_feature_names md ! p) = None \<longrightarrow>
        predict_with_model model md feats
          = Inl (ValueError (MissingNoise (get_feature_names md ! p))))
     \<and> ((\<exists>n\<in>set (required_hist_names md @ required_noise_names md). feats n = None) \<longrightarrow>
          (\<exists>e. predict_with_model model md feats = Inl e \<and> is_validation_error e))"
proof -
  assume valid: "valid_metadata md"
  note v = valid_metadata_D [OF valid]
  let ?hn = "required_hist_names md"
  let ?names = "get_feature_names md"
  have hist_fail: "predict_with_model model md feats =
           Inl (ValueError
             (if missing_hist feats ?hn \<noteq> [] then MissingHistory (missing_hist feats ?hn)
              else if list_all (is_numeric feats) ?hn then HistNotPositive
              else HistNotNumeric))" if "\<not> list_all (hist_value_ok feats) ?hn"
    using v that by (simp add: predict_hist_failure)
  have part1: "predict_with_model model md feats
          = Inl (ValueError (MissingHistory (missing_hist feats ?hn)))"
    if m: "missing_hist feats ?hn \<noteq> []"
  proof -
    from m obtain n where n: "n \<in> set ?hn" "feats n = None"
      by (auto simp: missing_hist_empty_iff)
    from n(2) have "\<not> hist_value_ok feats n"
      by (simp add: hist_value_ok_def)
    with n(1) have "\<not> list_all (hist_value_ok feats) ?hn"
      by (auto simp: list_all_iff)
    from hist_fail [OF this] m show ?thesis
      by simp
  qed
  have part2: "predict_with_model model md feats = Inl (ValueError (MissingNoise (?names ! p)))"
    if ok: "list_all (hist_value_ok feats) ?hn"
      and split: "noise_idx_of ?names = qs @ p # rs"
      and before: "list_all (is_numeric feats) (map (\<lambda>i. ?names ! i) qs)"
      and missing: "feats (?names ! p) = None"
  proof -
    have ne: "hist_raw_of md feats \<noteq> []"
      using required_hist_names_nonempty [of md] v by (simp add: hist_raw_of_def)
    from known_mode_base [OF _ ne, of "get_window_scale_mode md"] v obtain b where
      b: "compute_window_base (hist_raw_of md feats) (get_window_scale_mode md) = Inr b"
      by blast
    from before have before': "\<forall>q\<in>set qs. is_numeric feats (?names ! q)"
      by (simp add: list_all_iff)
    have run: "predict_with_model model md feats =
           assemble model ?names feats (get_window_scale_mode md)
             (get_vmin md) (get_vmax md) (required_hist_positions md)
             (noise_idx_of ?names) (other_idx_of ?names) (hist_raw_of md feats)"
      using v ok by (simp add: predict_after_hist)
    show ?thesis
      unfolding run by (rule assemble_noise_missing [OF b split before' missing])
  qed
  have part3: "\<exists>e. predict_with_model model md feats = Inl e \<and> is_validation_error e"
    if ex: "\<exists>n\<in>set (?hn @ required_noise_names md). feats n = None"
  proof (cases "list_all (hist_value_ok feats) ?hn")
    case False
    from hist_fail [OF False] show ?thesis
      by simp
  next
    case True
    then have "\<forall>n\<in>set ?hn. feats n \<noteq> None"
      using hist_value_ok_D by (auto simp: list_all_iff)
    with ex obtain n where n: "n \<in> set (required_noise_names md)" "feats n = None"
      by auto
    then have "\<not> is_numeric feats n"
      by (simp add: is_numeric_def)
    with n(1) have "\<not> (list_all (is_numeric feats) (required_noise_names md)
                 \<and> list_all (numeric_or_absent feats) (other_names md))"
      by (auto simp: list_all_iff)
    from predict_request_failure [OF valid True this, of model] obtain e where
      e: "predict_with_model model md feats = Inl e" "request_error e"
      by blast
    from e(2) have "is_validation_error e"
      by (cases e rule: request_error.cases) simp_all
    with e(1) show ?thesis
      by blast
  qed
  from part1 part2 part3 show ?thesis
    by blast
qed

theorem missing_feature_rejected_witness:
  "valid_metadata
     \<lparr>feature_names = Some [''noise_target'', ''DL_hist_t_minus_0'', ''DL_hist_t_minus_1''],
      feature_names_in = None, window_size = Some 2, scaling = None,
      window_scale_mode = None, noise_scaling = None\<rparr>
   \<and> predict_with_model (\<lambda>x. Some 1)
     \<lparr>feature_names = Some [''noise_target'', ''DL_hist_t_minus_0'', ''DL_hist_t_minus_1''],
      feature_names_in = None, window_size = Some 2, scaling = None,
      window_scale_mode = None, noise_scaling = None\<rparr>
     [''noise_target'' \<mapsto> Num (- 100), ''DL_hist_t_minus_0'' \<mapsto> Num 5]
     = Inl (ValueError (MissingHistory [''DL_hist_t_minus_1'']))
   \<and> predict_with_model (\<lambda>x. Some 1)
     \<lparr>feature_names = Some [''noise_target'', ''DL_hist_t_minus_0'', ''DL_hist_t_minus_1''],
      feature_names_in = None, window_size = Some 2, scaling = None,
      window_scale_mode = None, noise_scaling = None\<rparr>
     [''DL_hist_t_minus_0'' \<mapsto> Num 5, ''DL_hist_t_minus_1'' \<mapsto> Num 7]
     = Inl (ValueError (MissingNoise ''noise_target''))
   \<and> is_validation_error (ValueError (MissingNoise ''noise_target''))"
proof -
  let ?md = "\<lparr>feature_names = Some [''noise_target'', ''DL_hist_t_minus_0'', ''DL_hist_t_minus_1''],
      feature_names_in = None, window_size = Some 2, scaling = None,
      window_scale_mode = None, noise_scaling = None\<rparr>"
  let ?f1 = "[''noise_target'' \<mapsto> Num (- 100), ''DL_hist_t_minus_0'' \<mapsto> Num 5]"
  let ?f2 = "[''DL_hist_t_minus_0'' \<mapsto> Num 5, ''DL_hist_t_minus_1'' \<mapsto> Num 7]"
  have fn: "get_feature_names ?md = [''noise_target'', ''DL_hist_t_minus_0'', ''DL_hist_t_minus_1'']"
    by (simp add: get_feature_names_def)
  have names: "required_hist_names ?md = [''DL_hist_t_minus_0'', ''DL_hist_t_minus_1'']"
    by (simp add: required_hist_names_def required_hist_positions_def eval_defs)
  have noise: "noise_idx_of (get_feature_names ?md) = [] @ 0 # []"
    by (simp add: eval_defs)
  have nn: "required_noise_names ?md = [''noise_target'']"
    by (simp add: required_noise_names_def eval_defs)
  have valid: "valid_metadata ?md"
    by (simp add: valid_metadata_def known_mode_def eval_defs)
  have m1: "missing_hist ?f1 (required_hist_names ?md) = [''DL_hist_t_minus_1'']"
    unfolding names by (simp add: missing_hist_def)
  have ok2: "list_all (hist_value_ok ?f2) (required_hist_names ?md)"
    unfolding names by (simp add: hist_value_ok_def)
  have miss2: "?f2 (get_feature_names ?md ! 0) = None"
    unfolding fn by simp
  have ex2: "\<exists>n\<in>set (required_hist_names ?md @ required_noise_names ?md). ?f2 n = None"
    unfolding names nn by simp
  have r1: "predict_with_model (\<lambda>x. Some 1) ?md ?f1
              = Inl (ValueError (MissingHistory [''DL_hist_t_minus_1'']))"
    using missing_feature_rejected
      [where md = ?md and feats = ?f1 and model = "\<lambda>x. Some 1" and qs = "[]" and p = 0
         and rs = "[]", OF valid] m1
    by simp
  have r2: "predict_with_model (\<lambda>x. Some 1) ?md ?f2
              = Inl (ValueError (MissingNoise ''noise_target''))
            \<and> (\<exists>e. predict_with_model (\<lambda>x. Some 1) ?md ?f2 = Inl e \<and> is_validation_error e)"
    using missing_feature_rejected
      [where md = ?md and feats = ?f2 and model = "\<lambda>x. Some 1" and qs = "[]" and p = 0
         and rs = "[]", OF valid] ok2 noise miss2 ex2 fn
    by simp
  then have "is_validation_error (ValueError (MissingNoise ''noise_target''))"
    by auto
  with valid r1 r2 show ?thesis
    by blast
qed

theorem missing_feature_rejected_counterexample:
  "valid_metadata
     \<lparr>feature_names = Some [''noise_target'', ''DL_hist_t_minus_0''],
      feature_names_in = None, window_size = Some 1, scaling = None,
      window_scale_mode = None, noise_scaling = None\<rparr>
   \<and> ''noise_target'' \<in> set (required_noise_names
     \<lparr>feature_names = Some [''noise_target'', ''DL_hist_t_minus_0''],
      feature_names_in = None, window_size = Some 1, scaling = None,
      window_scale_mode = None, noise_scaling = None\<rparr>)
   \<and> [''DL_hist_t_minus_0'' \<mapsto> Num (- 5)] ''noise_target'' = None
   \<and> predict_with_model (\<lambda>x. Some 1)
     \<lparr>feature_names = Some [''noise_target'', ''DL_hist_t_minus_0''],
      feature_names_in = None, window_size = Some 1, scaling = None,
      window_scale_mode = None, noise_scaling = None\<rparr>
     [''DL_hist_t_minus_0'' \<mapsto> Num (- 5)]
     = Inl (ValueError HistNotPositive)"
  by (simp add: valid_metadata_def known_mode_def required_noise_names_def eval_defs)

subsection \<open>The input vector\<close>

text \<open>
  C3, as the code has it: for valid metadata and a request that gives every required
  history name a numeric value above zero, every noise name a numeric value and every
  other name a numeric value or none, the service builds a vector \<open>x\<close> of the length
  of \<open>feature_names\<close> and calls the estimator on it; it returns the estimator's failure
  when the estimator fails and otherwise a result whose \<open>x_vector\<close> is \<open>x\<close>. Entry \<open>i\<close>
  of \<open>x\<close> is: at a history position of the window the raw value divided by the base
  (the raw value itself under \<open>none\<close>); at a history position outside the window 0.0;
  at a noise position the raw value under the noise transform; at any other position
  the raw value, or 0.0 when the request has none.
\<close>

theorem input_vector_transform:
  "valid_metadata md \<Longrightarrow> list_all (hist_value_ok feats) (required_hist_names md)
     \<Longrightarrow> list_all (is_numeric feats) (required_noise_names md)
     \<Longrightarrow> list_all (numeric_or_absent feats) (other_names md)
     \<Longrightarrow> (\<exists>b x. compute_window_base (hist_raw_of md feats) (get_window_scale_mode md) = Inr b
            \<and> length x = length (get_feature_names md)
            \<and> (\<forall>i<length (get_feature_names md). x ! i = transform_entry md feats b i)
            \<and> predict_with_model model md feats =
                (case model x of
                   None \<Rightarrow> Inl InferenceError
                 | Some y \<Rightarrow> Inr \<lparr>y_pred = y * b, y_pred_scaled = y, base = b, x_vector = x,
                                  res_feature_names = get_feature_names md\<rparr>))"
  by (rule predict_ok)

theorem input_vector_transform_witness:
  "valid_metadata
     \<lparr>feature_names = Some [''noise_target'', ''DL_hist_t_minus_0'', ''gain'', ''DL_hist_t_minus_1'',
        ''load''],
      feature_names_in = None, window_size = Some 2, scaling = None,
      window_scale_mode = None, noise_scaling = None\<rparr>
   \<and> predict_with_model (\<lambda>x. Some 2)
     \<lparr>feature_names = Some [''noise_target'', ''DL_hist_t_minus_0'', ''gain'', ''DL_hist_t_minus_1'',
        ''load''],
      feature_names_in = None, window_size = Some 2, scaling = None,
      window_scale_mode = None, noise_scaling = None\<rparr>
     [''noise_target'' \<mapsto> Num (- 100), ''DL_hist_t_minus_0'' \<mapsto> Num 6,
      ''DL_hist_t_minus_1'' \<mapsto> Num 2, ''gain'' \<mapsto> Num 7]
     = Inr \<lparr>y_pred = 8, y_pred_scaled = 2, base = 4, x_vector = [1 / 2, 3 / 2, 7, 1 / 2, 0],
            res_feature_names = [''noise_target'', ''DL_hist_t_minus_0'', ''gain'',
              ''DL_hist_t_minus_1'', ''load'']\<rparr>"
proof -
  let ?md = "\<lparr>feature_names = Some [''noise_target'', ''DL_hist_t_minus_0'', ''gain'',
        ''DL_hist_t_minus_1'', ''load''],
      feature_names_in = None, window_size = Some 2, scaling = None,
      window_scale_mode = None, noise_scaling = None\<rparr>"
  let ?f = "[''noise_target'' \<mapsto> Num (- 100), ''DL_hist_t_minus_0'' \<mapsto> Num 6,
      ''DL_hist_t_minus_1'' \<mapsto> Num 2, ''gain'' \<mapsto> Num 7]"
  let ?model = "\<lambda>x::real list. Some (2::real)"
  have fn: "get_feature_names ?md = [''noise_target'', ''DL_hist_t_minus_0'', ''gain'',
        ''DL_hist_t_minus_1'', ''load'']"
    by (simp add: get_feature_names_def)
  have pos: "required_hist_positions ?md = [1, 3]"
    by (simp add: required_hist_positions_def eval_defs)
  have names: "required_hist_names ?md = [''DL_hist_t_minus_0'', ''DL_hist_t_minus_1'']"
    unfolding required_hist_names_def pos fn by simp
  have nn: "required_noise_names ?md = [''noise_target'']"
    by (simp add: required_noise_names_def eval_defs)
  have on: "other_names ?md = [''gain'', ''load'']"
    by (simp add: other_names_def eval_defs)
  have valid: "valid_metadata ?md"
    by (simp add: valid_metadata_def known_mode_def eval_defs)
  have h: "list_all (hist_value_ok ?f) (required_hist_names ?md)"
    unfolding names by (simp add: hist_value_ok_def)
  have n: "list_all (is_numeric ?f) (required_noise_names ?md)"
    unfolding nn by (simp add: is_numeric_def)
  have ot: "list_all (numeric_or_absent ?f) (other_names ?md)"
    unfolding on by (simp add: numeric_or_absent_def)
  have raw: "hist_raw_of ?md ?f = [6, 2]"
    unfolding hist_raw_of_def names by (simp add: raw_value_def)
  have mode: "get_window_scale_mode ?md = ''window_mean''"
    by (simp add: get_window_scale_mode_def get_scaling_def)
  have base4: "compute_window_base [6, 2] ''window_mean'' = Inr 4"
    by (simp add: compute_window_base_def mean_def floor_base_def)
  have bounds: "get_vmin ?md = 50" "get_vmax ?md = 150"
    by (simp_all add: get_vmin_def get_vmax_def get_noise_cfg_def get_scaling_def)
  have t: "transform_entry ?md ?f 4 0 = 1 / 2" "transform_entry ?md ?f 4 1 = 3 / 2"
    "transform_entry ?md ?f 4 2 = 7" "transform_entry ?md ?f 4 3 = 1 / 2"
    "transform_entry ?md ?f 4 4 = 0"
    unfolding transform_entry_def pos fn mode bounds
    by (simp_all add: raw_value_def startswith_def scale_noise_abs_db_def)
  from input_vector_transform [OF valid h n ot, of ?model] obtain b x where
    bx: "compute_window_base (hist_raw_of ?md ?f) (get_window_scale_mode ?md) = Inr b"
      "length x = length (get_feature_names ?md)"
      "\<forall>i<length (get_feature_names ?md). x ! i = transform_entry ?md ?f b i"
      "predict_with_model ?model ?md ?f =
         (case ?model x of
            None \<Rightarrow> Inl InferenceError
          | Some y \<Rightarrow> Inr \<lparr>y_pred = y * b, y_pred_scaled = y, base = b, x_vector = x,
                           res_feature_names = get_feature_names ?md\<rparr>)"
    by blast
  from bx(1) have b: "b = 4"
    unfolding raw mode base4 by simp
  have len: "length x = 5"
    using bx(2) unfolding fn by simp
  have "x ! 0 = 1 / 2" "x ! 1 = 3 / 2" "x ! 2 = 7" "x ! 3 = 1 / 2" "x ! 4 = 0"
    using bx(3) t unfolding b fn by simp_all
  with len have x: "x = [1 / 2, 3 / 2, 7, 1 / 2, 0]"
    by (intro nth_equalityI) (auto simp: less_Suc_eq numeral_eq_Suc)
  have "predict_with_model ?model ?md ?f
     = Inr \<lparr>y_pred = 8, y_pred_scaled = 2, base = 4, x_vector = [1 / 2, 3 / 2, 7, 1 / 2, 0],
            res_feature_names = [''noise_target'', ''DL_hist_t_minus_0'', ''gain'',
              ''DL_hist_t_minus_1'', ''load'']\<rparr>"
    unfolding bx(4) x b fn by simp
  with valid show ?thesis
    by blast
qed

theorem input_vector_transform_counterexample:
  "valid_metadata
     \<lparr>feature_names = Some [''DL_hist_0'', ''DL_hist_1''], feature_names_in = None,
      window_size = Some 1, scaling = None, window_scale_mode = Some ''none'',
      noise_scaling = None\<rparr>
   \<and> predict_with_model (\<lambda>x. Some 1)
     \<lparr>feature_names = Some [''DL_hist_0'', ''DL_hist_1''], feature_names_in = None,
      window_size = Some 1, scaling = None, window_scale_mode = Some ''none'',
      noise_scaling = None\<rparr>
     [''DL_hist_0'' \<mapsto> Num 2, ''DL_hist_1'' \<mapsto> Num 2]
     = Inr \<lparr>y_pred = 1, y_pred_scaled = 1, base = 1, x_vector = [2, 0],
            res_feature_names = [''DL_hist_0'', ''DL_hist_1'']\<rparr>
   \<and> [2, 0 :: real] ! 1 \<noteq> raw_value [''DL_hist_0'' \<mapsto> Num 2, ''DL_hist_1'' \<mapsto> Num 2] ''DL_hist_1''
   \<and> valid_metadata
     \<lparr>feature_names = Some [''DL_hist_0'', ''noise_a''], feature_names_in = None,
      window_size = Some 1, scaling = None, window_scale_mode = None, noise_scaling = None\<rparr>
   \<and> predict_with_model (\<lambda>x. Some 1)
     \<lparr>feature_names = Some [''DL_hist_0'', ''noise_a''], feature_names_in = None,
      window_size = Some 1, scaling = None, window_scale_mode = None, noise_scaling = None\<rparr>
     [''DL_hist_0'' \<mapsto> Num 2, ''noise_a'' \<mapsto> BadStr]
     = Inl (ValueError CouldNotConvert)"
  by (simp add: valid_metadata_def known_mode_def raw_value_def eval_defs)

subsection \<open>The window anchor\<close>

lemma suffix_keys_Some: "suffix_keys ns = Some ks \<Longrightarrow> ks = map suffix_of ns"
  by (induction ns arbitrary: ks) (auto simp: suffix_of_def split: option.splits)

lemma sorted_order_hist_positions:
  assumes "suffix_keys (map (\<lambda>i. names ! i) h) = Some ks"
  shows "sorted (map (\<lambda>i. suffix_of (names ! i)) (order_hist_positions names h))"
proof (cases "h = []")
  case True
  then show ?thesis by (simp add: order_hist_positions_def)
next
  case False
  let ?order = "sort_key (\<lambda>k. ks ! k) [0..<length h]"
  have ks: "ks = map suffix_of (map (\<lambda>i. names ! i) h)"
    using assms by (rule suffix_keys_Some)
  have same: "map (\<lambda>k. suffix_of (names ! (h ! k))) ?order = map (\<lambda>k. ks ! k) ?order"
    by (rule map_cong) (auto simp: ks)
  have srt: "sorted (map (\<lambda>k. suffix_of (names ! (h ! k))) ?order)"
    unfolding same by (rule sorted_sort_key)
  have eq: "order_hist_positions names h = map (\<lambda>k. h ! k) ?order"
    using False assms by (simp add: order_hist_positions_def Let_def)
  have "map (\<lambda>i. suffix_of (names ! i)) (map (\<lambda>k. h ! k) ?order)
          = map (\<lambda>k. suffix_of (names ! (h ! k))) ?order"
    by (simp add: comp_def)
  with srt show ?thesis
    unfolding eq by (simp add: comp_def)
qed

lemma sorted_required_hist_positions:
  assumes "suffix_keys (map (\<lambda>i. get_feature_names md ! i) (hist_idx_of (get_feature_names md)))
             = Some ks"
  shows "sorted (map (\<lambda>i. suffix_of (get_feature_names md ! i)) (required_hist_positions md))"
proof -
  let ?all = "order_hist_positions (get_feature_names md) (hist_idx_of (get_feature_names md))"
  let ?f = "\<lambda>i. suffix_of (get_feature_names md ! i)"
  have s: "sorted (map ?f ?all)"
    using assms by (rule sorted_order_hist_positions)
  then have "sorted (take (nat (get_window_size md)) (map ?f ?all))"
    by (rule sorted_wrt_take)
  then have "sorted (map ?f (take (nat (get_window_size md)) ?all))"
    by (simp add: take_map)
  with s show ?thesis
    by (simp add: required_hist_positions_def ordered_hist_positions_def)
qed

text \<open>
  C1, as the code has it: under \<open>window_anchor\<close> every result the service returns has
  as base the raw value of the last position of the window, floored at \<open>1e-8\<close>, and
  each history entry of the window is its raw value divided by that base. The window is
  in ascending order of the trailing integers when they all parse, so its last position
  carries the largest suffix of the window, not the suffix 0. For the raw values 100,
  200, 300 in the order of the window the base is 300 and the entries are 1/3, 2/3, 1.
\<close>

theorem window_anchor_base:
  "get_window_scale_mode md = ''window_anchor'' \<Longrightarrow> predict_with_model model md feats = Inr r
     \<Longrightarrow> required_hist_positions md \<noteq> []
         \<and> base r = max (raw_value feats (get_feature_names md ! last (required_hist_positions md)))
                      floor_base
         \<and> (\<forall>i\<in>set (required_hist_positions md).
               x_vector r ! i = raw_value feats (get_feature_names md ! i) / base r)
         \<and> (suffix_keys (map (\<lambda>i. get_feature_names md ! i) (hist_idx_of (get_feature_names md)))
               \<noteq> None \<longrightarrow>
             sorted (map (\<lambda>i. suffix_of (get_feature_names md ! i)) (required_hist_positions md)))"
proof -
  assume mode: "get_window_scale_mode md = ''window_anchor''"
    and run: "predict_with_model model md feats = Inr r"
  let ?names = "get_feature_names md"
  let ?ps = "required_hist_positions md"
  from predict_Inr_D [OF run] have valid: "valid_metadata md"
    by simp
  note v = valid_metadata_D [OF valid]
  from predict_Inr_result [OF run] have
    b: "compute_window_base (hist_raw_of md feats) (get_window_scale_mode md) = Inr (base r)"
    and ent: "\<forall>i<length ?names. x_vector r ! i = transform_entry md feats (base r) i"
    by simp_all
  have ne: "?ps \<noteq> []"
    using v by (simp add: required_hist_positions_def ordered_hist_positions_nonempty)
  then have raw_ne: "hist_raw_of md feats \<noteq> []"
    by (simp add: hist_raw_of_def required_hist_names_def)
  have lst: "last (hist_raw_of md feats) = raw_value feats (?names ! last ?ps)"
    using ne by (simp add: hist_raw_of_def required_hist_names_def last_map)
  have base_eq: "base r = max (raw_value feats (?names ! last ?ps)) floor_base"
    using b base_anchor [OF raw_ne] unfolding mode lst by simp
  have entries: "\<forall>i\<in>set ?ps. x_vector r ! i = raw_value feats (?names ! i) / base r"
  proof
    fix i assume i: "i \<in> set ?ps"
    then have "i < length ?names"
      by (rule required_hist_positions_less)
    with ent have "x_vector r ! i = transform_entry md feats (base r) i"
      by blast
    with i show "x_vector r ! i = raw_value feats (?names ! i) / base r"
      by (simp add: transform_entry_def mode)
  qed
  have srt: "suffix_keys (map (\<lambda>i. ?names ! i) (hist_idx_of ?names)) \<noteq> None \<longrightarrow>
             sorted (map (\<lambda>i. suffix_of (?names ! i)) ?ps)"
    using sorted_required_hist_positions [of md] by auto
  from ne base_eq entries srt show ?thesis
    by blast
qed

theorem window_anchor_base_witness:
  "get_window_scale_mode
     \<lparr>feature_names = Some [''DL_hist_t_minus_2'', ''DL_hist_t_minus_0'', ''DL_hist_t_minus_1''],
      feature_names_in = None, window_size = Some 3, scaling = None,
      window_scale_mode = Some ''window_anchor'', noise_scaling = None\<rparr> = ''window_anchor''
   \<and> predict_with_model (\<lambda>x. Some 1)
     \<lparr>feature_names = Some [''DL_hist_t_minus_2'', ''DL_hist_t_minus_0'', ''DL_hist_t_minus_1''],
      feature_names_in = None, window_size = Some 3, scaling = None,
      window_scale_mode = Some ''window_anchor'', noise_scaling = None\<rparr>
     [''DL_hist_t_minus_0'' \<mapsto> Num 100, ''DL_hist_t_minus_1'' \<mapsto> Num 200,
      ''DL_hist_t_minus_2'' \<mapsto> Num 300]
     = Inr \<lparr>y_pred = 300, y_pred_scaled = 1, base = 300, x_vector = [1, 1 / 3, 2 / 3],
            res_feature_names = [''DL_hist_t_minus_2'', ''DL_hist_t_minus_0'',
              ''DL_hist_t_minus_1'']\<rparr>
   \<and> required_hist_positions
     \<lparr>feature_names = Some [''DL_hist_t_minus_2'', ''DL_hist_t_minus_0'', ''DL_hist_t_minus_1''],
      feature_names_in = None, window_size = Some 3, scaling = None,
      window_scale_mode = Some ''window_anchor'', noise_scaling = None\<rparr> = [1, 2, 0]
   \<and> (300::real) = max 300 floor_base
   \<and> sorted [0, 1, 2 :: int]"
proof -
  let ?md = "\<lparr>feature_names = Some [''DL_hist_t_minus_2'', ''DL_hist_t_minus_0'',
        ''DL_hist_t_minus_1''],
      feature_names_in = None, window_size = Some 3, scaling = None,
      window_scale_mode = Some ''window_anchor'', noise_scaling = None\<rparr>"
  let ?f = "[''DL_hist_t_minus_0'' \<mapsto> Num 100, ''DL_hist_t_minus_1'' \<mapsto> Num 200,
      ''DL_hist_t_minus_2'' \<mapsto> Num (300::real)]"
  let ?r = "\<lparr>y_pred = 300, y_pred_scaled = 1, base = 300, x_vector = [1, 1 / 3, 2 / 3],
            res_feature_names = [''DL_hist_t_minus_2'', ''DL_hist_t_minus_0'',
              ''DL_hist_t_minus_1'']\<rparr>"
  have mode: "get_window_scale_mode ?md = ''window_anchor''"
    by (simp add: get_window_scale_mode_def get_scaling_def)
  have run: "predict_with_model (\<lambda>x. Some 1) ?md ?f = Inr ?r"
    by (simp add: eval_defs)
  have fn: "get_feature_names ?md = [''DL_hist_t_minus_2'', ''DL_hist_t_minus_0'',
        ''DL_hist_t_minus_1'']"
    by (simp add: get_feature_names_def)
  have pos: "required_hist_positions ?md = [1, 2, 0]"
    by (simp add: required_hist_positions_def eval_defs)
  have keys: "suffix_keys (map (\<lambda>i. get_feature_names ?md ! i) (hist_idx_of (get_feature_names ?md)))
                \<noteq> None"
    unfolding fn by (simp add: eval_defs)
  have sf: "map (\<lambda>i. suffix_of (get_feature_names ?md ! i)) (required_hist_positions ?md) = [0, 1, 2]"
    unfolding pos fn by (simp add: suffix_of_def eval_defs)
  have rv: "raw_value ?f (get_feature_names ?md ! last (required_hist_positions ?md)) = 300"
    unfolding pos fn by (simp add: raw_value_def)
  from window_anchor_base [OF mode run] keys
  have "base ?r = max (raw_value ?f (get_feature_names ?md ! last (required_hist_positions ?md)))
                      floor_base"
    and "sorted (map (\<lambda>i. suffix_of (get_feature_names ?md ! i)) (required_hist_positions ?md))"
    by blast+
  then have "(300::real) = max 300 floor_base" and "sorted [0, 1, 2 :: int]"
    unfolding rv sf by simp_all
  with mode run pos show ?thesis
    by blast
qed

theorem window_anchor_base_counterexample:
  "get_window_scale_mode
     \<lparr>feature_names = Some [''DL_hist_t_minus_0'', ''DL_hist_t_minus_1'', ''DL_hist_t_minus_2''],
      feature_names_in = None, window_size = Some 3, scaling = None,
      window_scale_mode = Some ''window_anchor'', noise_scaling = None\<rparr> = ''window_anchor''
   \<and> predict_with_model (\<lambda>x. Some 1)
     \<lparr>feature_names = Some [''DL_hist_t_minus_0'', ''DL_hist_t_minus_1'', ''DL_hist_t_minus_2''],
      feature_names_in = None, window_size = Some 3, scaling = None,
      window_scale_mode = Some ''window_anchor'', noise_scaling = None\<rparr>
     [''DL_hist_t_minus_0'' \<mapsto> Num 300, ''DL_hist_t_minus_1'' \<mapsto> Num 200,
      ''DL_hist_t_minus_2'' \<mapsto> Num 100]
     = Inr \<lparr>y_pred = 100, y_pred_scaled = 1, base = 100, x_vector = [3, 2, 1],
            res_feature_names = [''DL_hist_t_minus_0'', ''DL_hist_t_minus_1'',
              ''DL_hist_t_minus_2'']\<rparr>
   \<and> raw_value [''DL_hist_t_minus_0'' \<mapsto> Num 300, ''DL_hist_t_minus_1'' \<mapsto> Num 200,
        ''DL_hist_t_minus_2'' \<mapsto> Num 100] ''DL_hist_t_minus_0'' = 300
   \<and> (100::real) \<noteq> 300
   \<and> predict_with_model (\<lambda>x. Some 1)
     \<lparr>feature_names = Some [''DL_hist_t_minus_0''],
      feature_names_in = None, window_size = Some 1, scaling = None,
      window_scale_mode = Some ''window_anchor'', noise_scaling = None\<rparr>
     [''DL_hist_t_minus_0'' \<mapsto> Num (1 / 10 ^ 9)]
     = Inr \<lparr>y_pred = 1 / 10 ^ 8, y_pred_scaled = 1, base = 1 / 10 ^ 8, x_vector = [1 / 10],
            res_feature_names = [''DL_hist_t_minus_0'']\<rparr>
   \<and> (1::real) / 10 ^ 8 \<noteq> 1 / 10 ^ 9"
  by (simp add: raw_value_def eval_defs)

subsection \<open>Broken metadata\<close>

text \<open>
  C2, as the code has it: for metadata that breaks the contract the service fails for
  every request and estimator with a ValueError, the one class it raises for a bad
  request too. With \<open>feature_names\<close> empty, \<open>window_size\<close> not above zero, the upper
  noise bound not above the lower one or no history name, checked in this order, the
  message is the configuration message of that check. With only the mode unknown the
  message is the unknown-mode message when the history of the request passes its checks
  and the message of the failed history check otherwise.
\<close>

theorem configuration_failure:
  "\<not> valid_metadata md \<Longrightarrow>
     (\<exists>m. predict_with_model model md feats = Inl (ValueError m)
        \<and> is_value_error (ValueError m)
        \<and> m = (if get_feature_names md = [] then FeatureNamesRequired
               else if get_window_size md \<le> 0 then WindowSizeNotPositive
               else if get_vmax md \<le> get_vmin md then NoiseBoundsInvalid
               else if hist_idx_of (get_feature_names md) = [] then NoHistFeatures
               else if list_all (hist_value_ok feats) (required_hist_names md)
                 then UnknownMode (get_window_scale_mode md)
               else if missing_hist feats (required_hist_names md) \<noteq> []
                 then MissingHistory (missing_hist feats (required_hist_names md))
               else if list_all (is_numeric feats) (required_hist_names md) then HistNotPositive
               else HistNotNumeric)
        \<and> (configuration_message m \<longleftrightarrow>
             get_feature_names md = [] \<or> get_window_size md \<le> 0 \<or> get_vmax md \<le> get_vmin md
             \<or> hist_idx_of (get_feature_names md) = []
             \<or> list_all (hist_value_ok feats) (required_hist_names md)))"
proof -
  assume invalid: "\<not> valid_metadata md"
  let ?front = "get_feature_names md \<noteq> [] \<and> 0 < get_window_size md
                 \<and> get_vmin md < get_vmax md \<and> hist_idx_of (get_feature_names md) \<noteq> []"
  show ?thesis
  proof (cases ?front)
    case False
    then show ?thesis
      using predict_front_failure [of model md feats] by (auto split: if_splits)
  next
    case front: True
    with invalid have unk: "\<not> known_mode (get_window_scale_mode md)"
      by (simp add: valid_metadata_def)
    show ?thesis
    proof (cases "list_all (hist_value_ok feats) (required_hist_names md)")
      case True
      with front unk have "predict_with_model model md feats =
           Inl (ValueError (UnknownMode (get_window_scale_mode md)))"
        by (simp add: predict_unknown_mode)
      with front True show ?thesis
        by simp
    next
      case False
      with front have "predict_with_model model md feats =
           Inl (ValueError
             (if missing_hist feats (required_hist_names md) \<noteq> []
                then MissingHistory (missing_hist feats (required_hist_names md))
              else if list_all (is_numeric feats) (required_hist_names md) then HistNotPositive
              else HistNotNumeric))"
        by (simp add: predict_hist_failure)
      with front False show ?thesis
        by simp
    qed
  qed
qed

theorem configuration_failure_witness:
  "\<not> valid_metadata
     \<lparr>feature_names = Some [''DL_hist_0'', ''DL_hist_1''], feature_names_in = None,
      window_size = Some 2, scaling = None, window_scale_mode = Some ''bogus'',
      noise_scaling = None\<rparr>
   \<and> predict_with_model (\<lambda>x. Some 1)
     \<lparr>feature_names = Some [''DL_hist_0'', ''DL_hist_1''], feature_names_in = None,
      window_size = Some 2, scaling = None, window_scale_mode = Some ''bogus'',
      noise_scaling = None\<rparr>
     [''DL_hist_0'' \<mapsto> Num 2, ''DL_hist_1'' \<mapsto> Num 4]
     = Inl (ValueError (UnknownMode ''bogus''))
   \<and> \<not> valid_metadata
     \<lparr>feature_names = Some [''DL_hist_0'', ''DL_hist_1''], feature_names_in = None,
      window_size = Some 0, scaling = None, window_scale_mode = None, noise_scaling = None\<rparr>
   \<and> predict_with_model (\<lambda>x. Some 1)
     \<lparr>feature_names = Some [''DL_hist_0'', ''DL_hist_1''], feature_names_in = None,
      window_size = Some 0, scaling = None, window_scale_mode = None, noise_scaling = None\<rparr>
     [''DL_hist_0'' \<mapsto> Num 2, ''DL_hist_1'' \<mapsto> Num 4]
     = Inl (ValueError WindowSizeNotPositive)"
proof -
  let ?md = "\<lparr>feature_names = Some [''DL_hist_0'', ''DL_hist_1''], feature_names_in = None,
      window_size = Some 2, scaling = None, window_scale_mode = Some ''bogus'',
      noise_scaling = None\<rparr>"
  let ?mdz = "\<lparr>feature_names = Some [''DL_hist_0'', ''DL_hist_1''], feature_names_in = None,
      window_size = Some 0, scaling = None, window_scale_mode = None, noise_scaling = None\<rparr>"
  let ?f = "[''DL_hist_0'' \<mapsto> Num 2, ''DL_hist_1'' \<mapsto> Num (4::real)]"
  have mode: "get_window_scale_mode ?md = ''bogus''"
    by (simp add: get_window_scale_mode_def get_scaling_def)
  have inv: "\<not> valid_metadata ?md"
    unfolding valid_metadata_def mode by (simp add: known_mode_def)
  have fn: "get_feature_names ?md = [''DL_hist_0'', ''DL_hist_1'']"
    by (simp add: get_feature_names_def)
  have ws: "get_window_size ?md = 2"
    by (simp add: get_window_size_def)
  have bounds: "get_vmin ?md = 50" "get_vmax ?md = 150"
    by (simp_all add: get_vmin_def get_vmax_def get_noise_cfg_def get_scaling_def)
  have hi: "hist_idx_of [''DL_hist_0'', ''DL_hist_1''] = [0, 1]"
    by (simp add: eval_defs)
  have names: "required_hist_names ?md = [''DL_hist_0'', ''DL_hist_1'']"
    by (simp add: required_hist_names_def required_hist_positions_def eval_defs)
  have ok: "list_all (hist_value_ok ?f) (required_hist_names ?md)"
    unfolding names by (simp add: hist_value_ok_def)
  have r1: "predict_with_model (\<lambda>x. Some 1) ?md ?f = Inl (ValueError (UnknownMode ''bogus''))"
    using configuration_failure [OF inv, of "\<lambda>x. Some 1" ?f] ok
    unfolding fn ws bounds hi mode by simp
  have inv0: "\<not> valid_metadata ?mdz"
    by (simp add: valid_metadata_def get_window_size_def)
  have fn0: "get_feature_names ?mdz = [''DL_hist_0'', ''DL_hist_1'']"
    by (simp add: get_feature_names_def)
  have ws0: "get_window_size ?mdz = 0"
    by (simp add: get_window_size_def)
  have r2: "predict_with_model (\<lambda>x. Some 1) ?mdz ?f = Inl (ValueError WindowSizeNotPositive)"
    using configuration_failure [OF inv0, of "\<lambda>x. Some 1" ?f]
    unfolding fn0 ws0 by simp
  from inv r1 inv0 r2 show ?thesis
    by blast
qed

theorem configuration_failure_counterexample:
  "\<not> valid_metadata
     \<lparr>feature_names = Some [''DL_hist_0''], feature_names_in = None,
      window_size = Some 1, scaling = None, window_scale_mode = Some ''bogus'',
      noise_scaling = None\<rparr>
   \<and> predict_with_model (\<lambda>x. Some 1)
     \<lparr>feature_names = Some [''DL_hist_0''], feature_names_in = None,
      window_size = Some 1, scaling = None, window_scale_mode = Some ''bogus'',
      noise_scaling = None\<rparr>
     Map.empty
     = Inl (ValueError (MissingHistory [''DL_hist_0'']))
   \<and> \<not> configuration_message (MissingHistory [''DL_hist_0''])
   \<and> \<not> valid_metadata
     \<lparr>feature_names = Some [], feature_names_in = None,
      window_size = Some 1, scaling = None, window_scale_mode = None, noise_scaling = None\<rparr>
   \<and> predict_with_model (\<lambda>x. Some 1)
     \<lparr>feature_names = Some [], feature_names_in = None,
      window_size = Some 1, scaling = None, window_scale_mode = None, noise_scaling = None\<rparr>
     Map.empty
     = Inl (ValueError FeatureNamesRequired)
   \<and> valid_metadata
     \<lparr>feature_names = Some [''DL_hist_0''], feature_names_in = None,
      window_size = Some 1, scaling = None, window_scale_mode = None, noise_scaling = None\<rparr>
   \<and> predict_with_model (\<lambda>x. Some 1)
     \<lparr>feature_names = Some [''DL_hist_0''], feature_names_in = None,
      window_size = Some 1, scaling = None, window_scale_mode = None, noise_scaling = None\<rparr>
     Map.empty
     = Inl (ValueError (MissingHistory [''DL_hist_0'']))
   \<and> is_value_error (ValueError FeatureNamesRequired)
   \<and> is_value_error (ValueError (MissingHistory [''DL_hist_0'']))"
  by (simp add: valid_metadata_def known_mode_def eval_defs)

subsection \<open>Defaults and tolerated mismatches\<close>

lemma predict_error_after_front:
  assumes front: "get_feature_names md \<noteq> []" "0 < get_window_size md"
      "get_vmin md < get_vmax md" "hist_idx_of (get_feature_names md) \<noteq> []"
    and run: "predict_with_model model md feats = Inl e"
  shows "(\<exists>ns. e = ValueError (MissingHistory ns)) \<or> e = ValueError HistNotPositive
         \<or> e = ValueError HistNotNumeric
         \<or> (e = ValueError (UnknownMode (get_window_scale_mode md))
              \<and> \<not> known_mode (get_window_scale_mode md))
         \<or> request_error e \<or> e = InferenceError"
proof (cases "list_all (hist_value_ok feats) (required_hist_names md)")
  case False
  from predict_hist_failure [OF front False, of model] run show ?thesis
    by (auto split: if_splits)
next
  case ok: True
  show ?thesis
  proof (cases "known_mode (get_window_scale_mode md)")
    case False
    from predict_unknown_mode [OF front ok False, of model] run False show ?thesis
      by simp
  next
    case True
    with front have valid: "valid_metadata md"
      by (simp add: valid_metadata_def)
    show ?thesis
    proof (cases "list_all (is_numeric feats) (required_noise_names md)
                 \<and> list_all (numeric_or_absent feats) (other_names md)")
      case False
      from predict_request_failure [OF valid ok False, of model] run show ?thesis
        by auto
    next
      case True
      then have "list_all (is_numeric feats) (required_noise_names md)"
        and "list_all (numeric_or_absent feats) (other_names md)"
        by simp_all
      from predict_ok [OF valid ok this, of model] run show ?thesis
        by (auto split: option.splits)
    qed
  qed
qed

lemma predict_config_error_D:
  assumes run: "predict_with_model model md feats = Inl (ValueError m)"
  shows "m = NoiseBoundsInvalid \<Longrightarrow> get_vmax md \<le> get_vmin md"
    and "m = UnknownMode u \<Longrightarrow> \<not> known_mode (get_window_scale_mode md)"
proof -
  let ?front = "get_feature_names md \<noteq> [] \<and> 0 < get_window_size md
                 \<and> get_vmin md < get_vmax md \<and> hist_idx_of (get_feature_names md) \<noteq> []"
  have a: "\<not> ?front \<Longrightarrow> m \<noteq> NoiseBoundsInvalid \<or> get_vmax md \<le> get_vmin md"
    using run predict_front_failure [of model md feats] by (auto split: if_splits)
  have b: "\<not> ?front \<Longrightarrow> m \<noteq> UnknownMode u"
    using run predict_front_failure [of model md feats] by (auto split: if_splits)
  have c: "?front \<Longrightarrow> m \<noteq> NoiseBoundsInvalid
             \<and> (m = UnknownMode u \<longrightarrow> \<not> known_mode (get_window_scale_mode md))"
    using predict_error_after_front [OF _ _ _ _ run] by auto
  show "m = NoiseBoundsInvalid \<Longrightarrow> get_vmax md \<le> get_vmin md"
    using a c by blast
  show "m = UnknownMode u \<Longrightarrow> \<not> known_mode (get_window_scale_mode md)"
    using b c by blast
qed

lemma predict_cong:
  assumes "get_feature_names md' = get_feature_names md"
    and "get_window_size md' = get_window_size md"
    and "get_window_scale_mode md' = get_window_scale_mode md"
    and "get_vmin md' = get_vmin md" and "get_vmax md' = get_vmax md"
  shows "predict_with_model model md' feats = predict_with_model model md feats"
  unfolding predict_with_model_def assms by (rule refl)

text \<open>
  C9: metadata without a \<open>window_scale_mode\<close>, nested under \<open>scaling\<close> or at the top
  level, is read as \<open>window_mean\<close> and the service never raises the unknown-mode error
  for it; metadata without a \<open>noise_scaling\<close> entry is read with the bounds 50 and 150
  and the service never raises the noise-bounds error for it; with both absent the
  service does what it does for the same metadata with these values written out.
\<close>

theorem absent_scaling_defaults:
  "(mode_absent md \<longrightarrow>
      get_window_scale_mode md = ''window_mean''
      \<and> (\<forall>u. predict_with_model model md feats \<noteq> Inl (ValueError (UnknownMode u))))
   \<and> (noise_absent md \<longrightarrow>
      get_vmin md = 50 \<and> get_vmax md = 150
      \<and> predict_with_model model md feats \<noteq> Inl (ValueError NoiseBoundsInvalid))
   \<and> (mode_absent md \<and> noise_absent md \<longrightarrow>
      predict_with_model model md feats
        = predict_with_model model
            (md\<lparr>scaling := None, window_scale_mode := Some ''window_mean'',
                noise_scaling := Some \<lparr>min_abs_db = Some 50, max_abs_db = Some 150\<rparr>\<rparr>)
            feats)"
proof -
  let ?md' = "md\<lparr>scaling := None, window_scale_mode := Some ''window_mean'',
                noise_scaling := Some \<lparr>min_abs_db = Some 50, max_abs_db = Some 150\<rparr>\<rparr>"
  have mode: "get_window_scale_mode md = ''window_mean''" if "mode_absent md"
    using that by (simp add: mode_absent_def get_window_scale_mode_def)
  have km: "known_mode ''window_mean''"
    by (simp add: known_mode_def)
  have no_unknown: "predict_with_model model md feats \<noteq> Inl (ValueError (UnknownMode u))"
    if "mode_absent md" for u
    using predict_config_error_D(2) [of model md feats "UnknownMode u" u] mode [OF that] km
    by auto
  have bounds: "get_vmin md = 50 \<and> get_vmax md = 150" if "noise_absent md"
    using that by (simp add: noise_absent_def get_vmin_def get_vmax_def get_noise_cfg_def)
  have no_bounds: "predict_with_model model md feats \<noteq> Inl (ValueError NoiseBoundsInvalid)"
    if "noise_absent md"
    using predict_config_error_D(1) [of model md feats NoiseBoundsInvalid] bounds [OF that]
    by auto
  have same: "predict_with_model model md feats = predict_with_model model ?md' feats"
    if "mode_absent md" and "noise_absent md"
  proof (rule predict_cong [symmetric])
    show "get_feature_names ?md' = get_feature_names md"
      by (simp add: get_feature_names_def split: option.splits list.splits)
    show "get_window_size ?md' = get_window_size md"
      by (simp add: get_window_size_def)
    show "get_window_scale_mode ?md' = get_window_scale_mode md"
      using mode [OF that(1)] by (simp add: get_window_scale_mode_def get_scaling_def)
    show "get_vmin ?md' = get_vmin md"
      using bounds [OF that(2)] by (simp add: get_vmin_def get_noise_cfg_def get_scaling_def)
    show "get_vmax ?md' = get_vmax md"
      using bounds [OF that(2)] by (simp add: get_vmax_def get_noise_cfg_def get_scaling_def)
  qed
  from mode no_unknown bounds no_bounds same show ?thesis
    by blast
qed

theorem absent_scaling_defaults_witness:
  "mode_absent
     \<lparr>feature_names = Some [''noise_target'', ''DL_hist_0'', ''DL_hist_1''],
      feature_names_in = None, window_size = Some 2, scaling = None,
      window_scale_mode = None, noise_scaling = None\<rparr>
   \<and> noise_absent
     \<lparr>feature_names = Some [''noise_target'', ''DL_hist_0'', ''DL_hist_1''],
      feature_names_in = None, window_size = Some 2, scaling = None,
      window_scale_mode = None, noise_scaling = None\<rparr>
   \<and> predict_with_model (\<lambda>x. Some 1)
     \<lparr>feature_names = Some [''noise_target'', ''DL_hist_0'', ''DL_hist_1''],
      feature_names_in = None, window_size = Some 2, scaling = None,
      window_scale_mode = None, noise_scaling = None\<rparr>
     [''noise_target'' \<mapsto> Num (- 100), ''DL_hist_0'' \<mapsto> Num 6, ''DL_hist_1'' \<mapsto> Num 2]
     = Inr \<lparr>y_pred = 4, y_pred_scaled = 1, base = 4, x_vector = [1 / 2, 3 / 2, 1 / 2],
            res_feature_names = [''noise_target'', ''DL_hist_0'', ''DL_hist_1'']\<rparr>"
proof -
  let ?md = "\<lparr>feature_names = Some [''noise_target'', ''DL_hist_0'', ''DL_hist_1''],
      feature_names_in = None, window_size = Some 2, scaling = None,
      window_scale_mode = None, noise_scaling = None\<rparr>"
  let ?f = "[''noise_target'' \<mapsto> Num (- 100), ''DL_hist_0'' \<mapsto> Num 6,
            ''DL_hist_1'' \<mapsto> Num (2::real)]"
  have ma: "mode_absent ?md"
    by (simp add: mode_absent_def get_scaling_def)
  have na: "noise_absent ?md"
    by (simp add: noise_absent_def get_scaling_def)
  have explicit: "predict_with_model (\<lambda>x. Some 1)
      (?md\<lparr>scaling := None, window_scale_mode := Some ''window_mean'',
            noise_scaling := Some \<lparr>min_abs_db = Some 50, max_abs_db = Some 150\<rparr>\<rparr>) ?f
     = Inr \<lparr>y_pred = 4, y_pred_scaled = 1, base = 4, x_vector = [1 / 2, 3 / 2, 1 / 2],
            res_feature_names = [''noise_target'', ''DL_hist_0'', ''DL_hist_1'']\<rparr>"
    by (simp add: eval_defs)
  from absent_scaling_defaults [of ?md "\<lambda>x. Some 1" ?f] ma na
  have "predict_with_model (\<lambda>x. Some 1) ?md ?f
     = predict_with_model (\<lambda>x. Some 1)
      (?md\<lparr>scaling := None, window_scale_mode := Some ''window_mean'',
            noise_scaling := Some \<lparr>min_abs_db = Some 50, max_abs_db = Some 150\<rparr>\<rparr>) ?f"
    by blast
  with explicit ma na show ?thesis
    by simp
qed

lemma ordered_hist_positions_all:
  "int (length h) \<le> w \<Longrightarrow> ordered_hist_positions names h w = order_hist_positions names h"
  by (simp add: ordered_hist_positions_def length_order_hist_positions)

text \<open>
  C10: when the names hold at least one history name and fewer of them than
  \<open>window_size\<close>, the service raises nothing for the mismatch: the window is made of all
  the ordered history positions, the service does for every request what it does with
  \<open>window_size\<close> set to their number, and a result it returns has a base computed over
  these fewer values and an \<open>x_vector\<close> of the length of \<open>feature_names\<close>.
\<close>

theorem window_size_mismatch_tolerated:
  "hist_idx_of (get_feature_names md) \<noteq> []
     \<Longrightarrow> int (length (hist_idx_of (get_feature_names md))) < get_window_size md
     \<Longrightarrow> required_hist_positions md
           = order_hist_positions (get_feature_names md) (hist_idx_of (get_feature_names md))
         \<and> length (hist_raw_of md feats) = length (hist_idx_of (get_feature_names md))
         \<and> predict_with_model model md feats
             = predict_with_model model
                 (md\<lparr>window_size := Some (int (length (hist_idx_of (get_feature_names md))))\<rparr>)
                 feats
         \<and> (\<forall>r. predict_with_model model md feats = Inr r \<longrightarrow>
               length (x_vector r) = length (get_feature_names md)
               \<and> compute_window_base (hist_raw_of md feats) (get_window_scale_mode md)
                   = Inr (base r))"
proof -
  let ?names = "get_feature_names md"
  let ?h = "hist_idx_of ?names"
  let ?md' = "md\<lparr>window_size := Some (int (length ?h))\<rparr>"
  assume ne: "?h \<noteq> []" and less: "int (length ?h) < get_window_size md"
  have pos: "required_hist_positions md = order_hist_positions ?names ?h"
    using less by (simp add: required_hist_positions_def ordered_hist_positions_all)
  have len: "length (hist_raw_of md feats) = length ?h"
    by (simp add: hist_raw_of_def required_hist_names_def pos length_order_hist_positions)
  have g: "get_feature_names ?md' = ?names" "get_window_scale_mode ?md' = get_window_scale_mode md"
    "get_vmin ?md' = get_vmin md" "get_vmax ?md' = get_vmax md"
    "get_window_size ?md' = int (length ?h)"
    by (simp_all add: get_feature_names_def get_window_scale_mode_def get_scaling_def
        get_vmin_def get_vmax_def get_noise_cfg_def get_window_size_def
        split: option.splits list.splits)
  have w: "0 < get_window_size md" "0 < int (length ?h)"
    using ne less by simp_all
  have e: "ordered_hist_positions ?names ?h (get_window_size md)
             = ordered_hist_positions ?names ?h (int (length ?h))"
    using less by (simp add: ordered_hist_positions_all)
  have same: "predict_with_model model md feats = predict_with_model model ?md' feats"
    unfolding predict_with_model_def g Let_def split_indices_def prod.case e
    using w by simp
  have res: "\<forall>r. predict_with_model model md feats = Inr r \<longrightarrow>
               length (x_vector r) = length ?names
               \<and> compute_window_base (hist_raw_of md feats) (get_window_scale_mode md)
                   = Inr (base r)"
    using predict_Inr_result [of model md feats] by blast
  from pos len same res show ?thesis
    by blast
qed

theorem window_size_mismatch_tolerated_witness:
  "hist_idx_of (get_feature_names
     \<lparr>feature_names = Some [''noise_target'', ''DL_hist_1'', ''DL_hist_0''],
      feature_names_in = None, window_size = Some 5, scaling = None,
      window_scale_mode = None, noise_scaling = None\<rparr>) = [1, 2]
   \<and> int (length [1, 2 :: nat]) < get_window_size
     \<lparr>feature_names = Some [''noise_target'', ''DL_hist_1'', ''DL_hist_0''],
      feature_names_in = None, window_size = Some 5, scaling = None,
      window_scale_mode = None, noise_scaling = None\<rparr>
   \<and> required_hist_positions
     \<lparr>feature_names = Some [''noise_target'', ''DL_hist_1'', ''DL_hist_0''],
      feature_names_in = None, window_size = Some 5, scaling = None,
      window_scale_mode = None, noise_scaling = None\<rparr> = [2, 1]
   \<and> predict_with_model (\<lambda>x. Some 1)
     \<lparr>feature_names = Some [''noise_target'', ''DL_hist_1'', ''DL_hist_0''],
      feature_names_in = None, window_size = Some 5, scaling = None,
      window_scale_mode = None, noise_scaling = None\<rparr>
     [''noise_target'' \<mapsto> Num (- 100), ''DL_hist_0'' \<mapsto> Num 6, ''DL_hist_1'' \<mapsto> Num 2]
     = Inr \<lparr>y_pred = 4, y_pred_scaled = 1, base = 4, x_vector = [1 / 2, 1 / 2, 3 / 2],
            res_feature_names = [''noise_target'', ''DL_hist_1'', ''DL_hist_0'']\<rparr>
   \<and> length [1 / 2, 1 / 2, 3 / 2 :: real] = length [''noise_target'', ''DL_hist_1'', ''DL_hist_0'']"
proof -
  let ?md = "\<lparr>feature_names = Some [''noise_target'', ''DL_hist_1'', ''DL_hist_0''],
      feature_names_in = None, window_size = Some 5, scaling = None,
      window_scale_mode = None, noise_scaling = None\<rparr>"
  let ?f = "[''noise_target'' \<mapsto> Num (- 100), ''DL_hist_0'' \<mapsto> Num 6,
            ''DL_hist_1'' \<mapsto> Num (2::real)]"
  let ?r = "\<lparr>y_pred = 4, y_pred_scaled = 1, base = 4, x_vector = [1 / 2, 1 / 2, 3 / 2],
            res_feature_names = [''noise_target'', ''DL_hist_1'', ''DL_hist_0'']\<rparr>"
  have fn: "get_feature_names ?md = [''noise_target'', ''DL_hist_1'', ''DL_hist_0'']"
    by (simp add: get_feature_names_def)
  have hi: "hist_idx_of (get_feature_names ?md) = [1, 2]"
    unfolding fn by (simp add: eval_defs)
  have ne: "hist_idx_of (get_feature_names ?md) \<noteq> []"
    unfolding hi by simp
  have less: "int (length (hist_idx_of (get_feature_names ?md))) < get_window_size ?md"
    unfolding hi by (simp add: get_window_size_def)
  have ord: "order_hist_positions (get_feature_names ?md) (hist_idx_of (get_feature_names ?md))
               = [2, 1]"
    unfolding hi fn by (simp add: eval_defs)
  have matched: "predict_with_model (\<lambda>x. Some 1)
      (?md\<lparr>window_size := Some (int (length (hist_idx_of (get_feature_names ?md))))\<rparr>) ?f = Inr ?r"
    unfolding hi by (simp add: eval_defs)
  from window_size_mismatch_tolerated [OF ne less, of ?f "\<lambda>x. Some 1"]
  have pos: "required_hist_positions ?md = [2, 1]"
    and run: "predict_with_model (\<lambda>x. Some 1) ?md ?f = Inr ?r"
    and all: "\<forall>r. predict_with_model (\<lambda>x. Some 1) ?md ?f = Inr r \<longrightarrow>
               length (x_vector r) = length (get_feature_names ?md)"
    unfolding ord matched by simp_all
  from all run have "length (x_vector ?r) = length (get_feature_names ?md)"
    by blast
  then have "length [1 / 2, 1 / 2, 3 / 2 :: real] = length [''noise_target'', ''DL_hist_1'', ''DL_hist_0'']"
    by simp
  with hi less pos run show ?thesis
    unfolding hi by simp
qed

end
